theory Spec2Isabelle
  imports Complex_Main "HOL-Library.Log_Nat"
begin

section \<open>Numbers, strings and the credential generator\<close>

text \<open>
  The program is \<^verbatim>\<open>src/App.jsx\<close>, which holds two versions of the App one after the
  other: the first keeps its packages and logs in memory, the second in a Supabase store.
  The fee engine, the credential generator and the rider and admin screens are the same
  code in both.

  A JavaScript number is an IEEE double. A finite double is modelled by its value, a
  rational, and an operation of the fee engine by the exact operation followed by the
  rounding \<open>fl\<close> to the nearest double, a tie going to the even significand. The result
  of \<open>fl\<close> is the double of 53 significant bits, with the fixed spacing of the subnormal
  range below \<open>2 powi (- 1022)\<close>; the overflow to \<^verbatim>\<open>Infinity\<close> is not modelled, and
  the fee engine never reaches it on a finite declared value. The clock
  \<^verbatim>\<open>Date.now()\<close> in milliseconds is an \<open>int\<close>; a timestamp
  \<^verbatim>\<open>new Date().toISOString()\<close> is kept as the clock value it is printed from.
\<close>

type_synonym number = rat

text \<open>The exponent \<open>e\<close> of a positive \<open>x\<close>: \<open>2 powi e \<le> x < 2 powi (e + 1)\<close>.\<close>

definition exponent :: "rat \<Rightarrow> int" where
  "exponent x = (if 1 \<le> x then bitlen \<lfloor>x\<rfloor> - 1 else - bitlen (\<lceil>1 / x\<rceil> - 1))"

text \<open>The spacing of the doubles around a positive \<open>x\<close>.\<close>

definition ulp :: "rat \<Rightarrow> rat" where
  "ulp x = 2 powi (max (exponent x) (- 1022) - 52)"

text \<open>The nearest integer, a tie going to the even one.\<close>

definition round_even :: "rat \<Rightarrow> int" where
  "round_even y =
     (let n = \<lfloor>y\<rfloor>; r = y - of_int n
      in if r < 1 / 2 then n else if 1 / 2 < r then n + 1 else if even n then n else n + 1)"

definition fl :: "rat \<Rightarrow> number" where
  "fl x = (if x = 0 then 0 else sgn x * (of_int (round_even (\<bar>x\<bar> / ulp \<bar>x\<bar>)) * ulp \<bar>x\<bar>))"

text \<open>The product and the sum of two numbers, and the literal \<^verbatim>\<open>0.015\<close>.\<close>

definition times_double :: "number \<Rightarrow> number \<Rightarrow> number" where
  "times_double a b = fl (a * b)"

definition plus_double :: "number \<Rightarrow> number \<Rightarrow> number" where
  "plus_double a b = fl (a + b)"

definition c015 :: number where
  "c015 = fl (15 / 1000)"

text \<open>
  \<^verbatim>\<open>Math.round\<close>: the integer nearest to the number, a half rounded towards plus
  infinity. The result is exact: it is a double whenever its argument is.
\<close>

definition Math_round :: "number \<Rightarrow> number" where
  "Math_round x = of_int \<lfloor>x + 1 / 2\<rfloor>"

text \<open>
  \<^verbatim>\<open>Math.floor\<close>. In \<^verbatim>\<open>generateOTP\<close> below, the product and the sum inside it are
  taken exactly, without the rounding \<open>fl\<close>.
\<close>

definition Math_floor :: "number \<Rightarrow> int" where
  "Math_floor x = \<lfloor>x\<rfloor>"

text \<open>
  \<^verbatim>\<open>Number.prototype.toString\<close> and template interpolation of an integer-valued
  number: the decimal digits, after a minus sign when it is negative.
\<close>

definition digit :: "nat \<Rightarrow> char" where
  "digit d = ''0123456789'' ! (d mod 10)"

fun digits :: "nat \<Rightarrow> string" where
  "digits n = (if n < 10 then [digit n] else digits (n div 10) @ [digit (n mod 10)])"

declare digits.simps [simp del]

definition toString :: "int \<Rightarrow> string" where
  "toString i = (if i < 0 then CHR ''-'' # digits (nat (- i)) else digits (nat i))"


text \<open>
  \<^verbatim>\<open>const generateOTP = () => Math.floor(1000 + Math.random() * 9000).toString();\<close>
  The draw of \<^verbatim>\<open>Math.random()\<close>, a number \<open>u\<close> with \<open>0 \<le> u < 1\<close>, is an argument.
\<close>

definition generateOTP :: "number \<Rightarrow> string" where
  "generateOTP u = toString (Math_floor (1000 + u * 9000))"

text \<open>
  \<^verbatim>\<open>const generateTracking = () => "MHB-" + Math.random().toString(36).substring(2,8).toUpperCase();\<close>
  The random suffix is an argument.
\<close>

definition generateTracking :: "string \<Rightarrow> string" where
  "generateTracking suffix = ''MHB-'' @ suffix"

section \<open>Fee engine\<close>

record fees =
  base :: number
  protectionFee :: number
  total_fee :: number
  isHighValue :: bool

text \<open>
  \<^verbatim>\<open>
  const calcFees = (declaredValue) => {
    const base = 200;
    const protectionFee = declaredValue > 5000 ? Math.round(declaredValue * 0.015) : 0;
    return { base, protectionFee, total: base + protectionFee, isHighValue: declaredValue > 10000 };
  };
  \<close>
\<close>

definition calcFees :: "number \<Rightarrow> fees" where
  "calcFees declaredValue =
     (let base = 200;
          protectionFee =
            (if declaredValue > 5000 then Math_round (times_double declaredValue c015) else 0)
      in \<lparr>base = base, protectionFee = protectionFee,
          total_fee = plus_double base protectionFee,
          isHighValue = (declaredValue > 10000)\<rparr>)"

section \<open>Data model\<close>

text \<open>
  The status of a package is one of the string literals of the check constraint in the
  schema comment; the handlers only ever write these literals.
\<close>

datatype status = searching_rider | picked_up | at_warehouse | out_for_delivery | delivered | cancelled

text \<open>
  A package object. It carries the four fields of the object returned by \<^verbatim>\<open>calcFees\<close>
  (\<open>base\<close>, \<open>protectionFee\<close>, \<open>total\<close>, \<open>isHighValue\<close>), so the record extends
  \<open>fees\<close>. The source's \<^verbatim>\<open>id\<close>, \<^verbatim>\<open>total\<close> and \<^verbatim>\<open>size\<close> are \<open>pkg_id\<close>,
  \<open>total_fee\<close> and \<open>size_class\<close>; \<^verbatim>\<open>null\<close> and \<^verbatim>\<open>undefined\<close> are \<open>None\<close>.
\<close>

record package = fees +
  pkg_id :: string
  trackingCode :: string
  customerId :: string
  customerName :: string
  riderCollectionId :: "string option"
  riderDeliveryId :: "string option"
  pickupAddress :: string
  deliveryAddress :: string
  deliveryZone :: string
  description :: string
  size_class :: string
  declaredValue :: number
  status :: status
  otpWarehouse :: "string option"
  otpDelivery :: "string option"
  otpWarehouseVerified :: bool
  otpDeliveryVerified :: bool
  createdAt :: int
  updatedAt :: "int option"

text \<open>A transit log entry (the source's \<^verbatim>\<open>id\<close>, \<^verbatim>\<open>notes\<close> and \<^verbatim>\<open>createdAt\<close> are prefixed).\<close>

record log_entry =
  log_id :: string
  packageId :: string
  actorId :: "string option"
  actorRole :: string
  actorName :: "string option"
  event :: string
  location :: "string option"
  log_notes :: "string option"
  log_createdAt :: int

text \<open>An account or rider object: \<^verbatim>\<open>{ id, name, phone, zone, role }\<close>.\<close>

record user =
  user_id :: string
  user_name :: string
  user_phone :: "string option"
  user_zone :: "string option"
  user_role :: string

text \<open>
  \<^verbatim>\<open>const RIDERS = [ ... ]\<close>
\<close>

definition RIDERS :: "user list" where
  "RIDERS =
    [\<lparr>user_id = ''rider-01'', user_name = ''Kip Mutai'', user_phone = Some ''0712345001'',
       user_zone = Some ''Westlands'', user_role = ''rider''\<rparr>,
     \<lparr>user_id = ''rider-02'', user_name = ''Faith Wanjiru'', user_phone = Some ''0712345002'',
       user_zone = Some ''Ngong'', user_role = ''rider''\<rparr>,
     \<lparr>user_id = ''rider-03'', user_name = ''Zawadi Mwangi'', user_phone = Some ''0712345003'',
       user_zone = Some ''Ruiru'', user_role = ''rider''\<rparr>,
     \<lparr>user_id = ''rider-04'', user_name = ''Brian Omondi'', user_phone = Some ''0712345004'',
       user_zone = Some ''Kasarani'', user_role = ''rider''\<rparr>]"

text \<open>
  The two pieces of React state of \<^verbatim>\<open>App\<close>:
  \<^verbatim>\<open>const [packages, setPackages] = useState(initialPackages);\<close> and
  \<^verbatim>\<open>const [logs, setLogs] = useState(initialLogs);\<close>
  A handler runs to completion against the state of the last render, so the
  \<^verbatim>\<open>packages\<close> a handler closes over is the \<open>packages\<close> of the state it is given.
\<close>

record state =
  packages :: "package list"
  logs :: "log_entry list"

text \<open>
  \<^verbatim>\<open>const initialPackages = [ ... ]\<close> and \<^verbatim>\<open>const initialLogs = [ ... ]\<close>, with the
  clock value \<open>t0\<close> at which the module is loaded.
\<close>

definition initialPackages :: "int \<Rightarrow> package list" where
  "initialPackages t0 =
    [\<lparr>base = 200, protectionFee = 128, total_fee = 328, isHighValue = False,
       pkg_id = ''pkg-001'', trackingCode = ''MHB-ALPHA1'', customerId = ''cust-01'',
       customerName = ''Amara Osei'', riderCollectionId = Some ''rider-01'', riderDeliveryId = None,
       pickupAddress = ''Sarit Centre, Westlands'', deliveryAddress = ''Garden City Mall, Kasarani'',
       deliveryZone = ''Kasarani'', description = ''Laptop bag'', size_class = ''medium'',
       declaredValue = 8500, status = at_warehouse,
       otpWarehouse = Some ''7423'', otpDelivery = Some ''3891'',
       otpWarehouseVerified = True, otpDeliveryVerified = False,
       createdAt = t0 - 3600000, updatedAt = None\<rparr>,
     \<lparr>base = 200, protectionFee = 225, total_fee = 425, isHighValue = True,
       pkg_id = ''pkg-002'', trackingCode = ''MHB-BETA22'', customerId = ''cust-02'',
       customerName = ''Njeri Kamau'', riderCollectionId = Some ''rider-02'', riderDeliveryId = None,
       pickupAddress = ''Ngong Hills Estate'', deliveryAddress = ''Eastgate Mall, Embakasi'',
       deliveryZone = ''Embakasi'', description = ''Electronics package'', size_class = ''small'',
       declaredValue = 15000, status = at_warehouse,
       otpWarehouse = Some ''5512'', otpDelivery = Some ''2267'',
       otpWarehouseVerified = False, otpDeliveryVerified = False,
       createdAt = t0 - 7200000, updatedAt = None\<rparr>,
     \<lparr>base = 200, protectionFee = 0, total_fee = 200, isHighValue = False,
       pkg_id = ''pkg-003'', trackingCode = ''MHB-GAMMA3'', customerId = ''cust-03'',
       customerName = ''David Otieno'', riderCollectionId = Some ''rider-01'',
       riderDeliveryId = Some ''rider-03'',
       pickupAddress = ''Muthaiga Road'', deliveryAddress = ''Two Rivers Mall, Ruiru'',
       deliveryZone = ''Ruiru'', description = ''Fashion items'', size_class = ''large'',
       declaredValue = 3200, status = out_for_delivery,
       otpWarehouse = None, otpDelivery = None,
       otpWarehouseVerified = False, otpDeliveryVerified = False,
       createdAt = t0 - 5400000, updatedAt = None\<rparr>]"

definition mk_log ::
  "string \<Rightarrow> string \<Rightarrow> string option \<Rightarrow> string \<Rightarrow> string option \<Rightarrow> string \<Rightarrow>
   string option \<Rightarrow> string option \<Rightarrow> int \<Rightarrow> log_entry" where
  "mk_log i pk aid ar an ev loc nt t =
     \<lparr>log_id = i, packageId = pk, actorId = aid, actorRole = ar, actorName = an, event = ev,
      location = loc, log_notes = nt, log_createdAt = t\<rparr>"

definition initialLogs :: "int \<Rightarrow> log_entry list" where
  "initialLogs t0 =
    [mk_log ''log-001'' ''pkg-001'' (Some ''rider-01'') ''rider'' (Some ''Kip Mutai'')
       ''COLLECTED_FROM_CUSTOMER'' (Some ''Sarit Centre, Westlands'')
       (Some ''Package in good condition'') (t0 - 3600000),
     mk_log ''log-002'' ''pkg-001'' (Some ''rider-01'') ''rider'' (Some ''Kip Mutai'')
       ''ARRIVED_AT_WAREHOUSE'' (Some ''Baruk Central, CBD'') None (t0 - 2400000),
     mk_log ''log-003'' ''pkg-002'' (Some ''rider-02'') ''rider'' (Some ''Faith Wanjiru'')
       ''COLLECTED_FROM_CUSTOMER'' (Some ''Ngong Hills Estate'')
       (Some ''Sealed electronics box'') (t0 - 7200000),
     mk_log ''log-004'' ''pkg-002'' (Some ''rider-02'') ''rider'' (Some ''Faith Wanjiru'')
       ''ARRIVED_AT_WAREHOUSE'' (Some ''Baruk Central, CBD'')
       (Some ''High value - OTP required'') (t0 - 6000000),
     mk_log ''log-005'' ''pkg-003'' (Some ''rider-01'') ''rider'' (Some ''Kip Mutai'')
       ''COLLECTED_FROM_CUSTOMER'' (Some ''Muthaiga Road'') None (t0 - 5400000),
     mk_log ''log-006'' ''pkg-003'' (Some ''admin-01'') ''admin'' (Some ''Admin Hub'')
       ''DISPATCHED_TO_RIDER'' (Some ''Baruk Central, CBD'')
       (Some ''Dispatched to Rider Zawadi'') (t0 - 3000000),
     mk_log ''log-007'' ''pkg-003'' (Some ''rider-03'') ''rider'' (Some ''Zawadi Mwangi'')
       ''OUT_FOR_DELIVERY'' (Some ''Baruk Central, CBD'') None (t0 - 2700000)]"

definition initial_state :: "int \<Rightarrow> state" where
  "initial_state t0 = \<lparr>packages = initialPackages t0, logs = initialLogs t0\<rparr>"

section \<open>State engine of the in-memory App\<close>

text \<open>
  The object literal a handler passes to \<^verbatim>\<open>updatePkg\<close>: the handlers write only these
  five fields.
\<close>

datatype field_update =
    Set_status status
  | Set_riderCollectionId string
  | Set_riderDeliveryId string
  | Set_otpWarehouseVerified bool
  | Set_otpDeliveryVerified bool

fun apply_update :: "package \<Rightarrow> field_update \<Rightarrow> package" where
  "apply_update p (Set_status v) = p\<lparr>status := v\<rparr>"
| "apply_update p (Set_riderCollectionId v) = p\<lparr>riderCollectionId := Some v\<rparr>"
| "apply_update p (Set_riderDeliveryId v) = p\<lparr>riderDeliveryId := Some v\<rparr>"
| "apply_update p (Set_otpWarehouseVerified v) = p\<lparr>otpWarehouseVerified := v\<rparr>"
| "apply_update p (Set_otpDeliveryVerified v) = p\<lparr>otpDeliveryVerified := v\<rparr>"

text \<open>The object spread \<^verbatim>\<open>{ ...p, ...updates }\<close>.\<close>

definition spread :: "package \<Rightarrow> field_update list \<Rightarrow> package" where
  "spread p updates = foldl apply_update p updates"

text \<open>
  \<^verbatim>\<open>
  const addLog = (packageId, actorId, actorRole, actorName, event, location, notes = null) => {
    const log = { id: `log-${Date.now()}`, packageId, actorId, actorRole, actorName, event,
                  location, notes, createdAt: new Date().toISOString() };
    setLogs(l => [...l, log]);
    return log;
  };
  \<close>
  The clock is the argument \<open>now\<close>; one handler reads one clock value.
\<close>

definition addLog ::
  "int \<Rightarrow> state \<Rightarrow> string \<Rightarrow> string option \<Rightarrow> string \<Rightarrow> string option \<Rightarrow> string \<Rightarrow>
   string option \<Rightarrow> string option \<Rightarrow> state" where
  "addLog now s pk aid ar an ev loc nt =
     s\<lparr>logs := logs s @ [mk_log (''log-'' @ toString now) pk aid ar an ev loc nt now]\<rparr>"

text \<open>
  \<^verbatim>\<open>
  const updatePkg = (id, updates) => {
    setPackages(ps => ps.map(p => p.id === id
      ? { ...p, ...updates, updatedAt: new Date().toISOString() } : p));
  };
  \<close>
\<close>

definition updatePkg :: "int \<Rightarrow> state \<Rightarrow> string \<Rightarrow> field_update list \<Rightarrow> state" where
  "updatePkg now s i updates =
     s\<lparr>packages :=
         map (\<lambda>p. if pkg_id p = i then (spread p updates)\<lparr>updatedAt := Some now\<rparr> else p)
           (packages s)\<rparr>"

text \<open>
  The booking form. \<open>form_declaredValue\<close> is the result of
  \<^verbatim>\<open>parseFloat(form.declaredValue)\<close>, \<open>None\<close> when it is \<^verbatim>\<open>NaN\<close>.
\<close>

record form =
  form_pickupAddress :: string
  form_deliveryAddress :: string
  form_deliveryZone :: string
  form_description :: string
  form_size :: string
  form_declaredValue :: "number option"

text \<open>\<^verbatim>\<open>parseFloat(form.declaredValue) || 0\<close>: \<^verbatim>\<open>NaN\<close> and \<open>0\<close> are falsy.\<close>

definition orZero :: "number option \<Rightarrow> number" where
  "orZero v = (case v of None \<Rightarrow> 0 | Some x \<Rightarrow> x)"

text \<open>
  \<^verbatim>\<open>onCreatePackage(form)\<close> (in-memory App). Its surroundings are arguments: the logged-in
  \<open>usr\<close>, the clock \<open>now\<close>, the random suffix of the tracking code and the two draws
  \<open>u1\<close>, \<open>u2\<close> of \<^verbatim>\<open>Math.random()\<close> that \<^verbatim>\<open>generateOTP\<close> consumes when the package is
  high-value. The dash of the booking note is written in ASCII, and the total in it is
  printed as an integer-valued number below \<open>10 ^ 21\<close> is, by its decimal digits.
\<close>

definition onCreatePackage ::
  "user \<Rightarrow> int \<Rightarrow> string \<Rightarrow> number \<Rightarrow> number \<Rightarrow> state \<Rightarrow> form \<Rightarrow> state \<times> package" where
  "onCreatePackage usr now suffix u1 u2 s f =
     (let fs = calcFees (orZero (form_declaredValue f));
          pkg = \<lparr>base = base fs, protectionFee = protectionFee fs, total_fee = total_fee fs,
                 isHighValue = isHighValue fs,
                 pkg_id = ''pkg-'' @ toString now, trackingCode = generateTracking suffix,
                 customerId = user_id usr, customerName = user_name usr,
                 riderCollectionId = None, riderDeliveryId = None,
                 pickupAddress = form_pickupAddress f, deliveryAddress = form_deliveryAddress f,
                 deliveryZone = form_deliveryZone f, description = form_description f,
                 size_class = form_size f,
                 declaredValue = orZero (form_declaredValue f),
                 status = searching_rider,
                 otpWarehouse = (if isHighValue fs then Some (generateOTP u1) else None),
                 otpDelivery = (if isHighValue fs then Some (generateOTP u2) else None),
                 otpWarehouseVerified = False, otpDeliveryVerified = False,
                 createdAt = now, updatedAt = None\<rparr>;
          s1 = s\<lparr>packages := pkg # packages s\<rparr>;
          s2 = addLog now s1 (pkg_id pkg) (Some (user_id usr)) ''customer'' (Some (user_name usr))
                 ''ORDER_PLACED'' (Some (pickupAddress pkg))
                 (Some (''Booking confirmed - KES '' @ toString \<lfloor>total_fee pkg\<rfloor>))
      in (s2, pkg))"

text \<open>\<^verbatim>\<open>RIDERS.find(r => r.id === riderId)?.name\<close>\<close>

definition rider_name :: "string \<Rightarrow> string option" where
  "rider_name riderId = map_option user_name (find (\<lambda>r. user_id r = riderId) RIDERS)"

text \<open>\<^verbatim>\<open>packages.find(p => p.id === pkgId)\<close>\<close>

definition find_pkg :: "state \<Rightarrow> string \<Rightarrow> package option" where
  "find_pkg s pkgId = find (\<lambda>p. pkg_id p = pkgId) (packages s)"

text \<open>
  \<^verbatim>\<open>
  const onAcceptCollection = (pkgId, riderId) => {
    const rider = RIDERS.find(r => r.id === riderId);
    updatePkg(pkgId, { riderCollectionId: riderId, status: "picked_up" });
    addLog(pkgId, riderId, "rider", rider?.name, "COLLECTED_FROM_CUSTOMER",
           packages.find(p => p.id === pkgId)?.pickupAddress, "Package collected");
  };
  \<close>
\<close>

definition onAcceptCollection :: "int \<Rightarrow> state \<Rightarrow> string \<Rightarrow> string \<Rightarrow> state" where
  "onAcceptCollection now s pkgId riderId =
     addLog now (updatePkg now s pkgId [Set_riderCollectionId riderId, Set_status picked_up])
       pkgId (Some riderId) ''rider'' (rider_name riderId) ''COLLECTED_FROM_CUSTOMER''
       (map_option pickupAddress (find_pkg s pkgId)) (Some ''Package collected'')"

text \<open>
  \<^verbatim>\<open>
  const onMarkAtWarehouse = (pkgId, riderId) => {
    const rider = RIDERS.find(r => r.id === riderId);
    updatePkg(pkgId, { status: "at_warehouse" });
    addLog(pkgId, riderId, "rider", rider?.name, "ARRIVED_AT_WAREHOUSE", "Baruk Central, CBD");
  };
  \<close>
\<close>

definition onMarkAtWarehouse :: "int \<Rightarrow> state \<Rightarrow> string \<Rightarrow> string \<Rightarrow> state" where
  "onMarkAtWarehouse now s pkgId riderId =
     addLog now (updatePkg now s pkgId [Set_status at_warehouse])
       pkgId (Some riderId) ''rider'' (rider_name riderId) ''ARRIVED_AT_WAREHOUSE''
       (Some ''Baruk Central, CBD'') None"

text \<open>
  \<^verbatim>\<open>
  const onDispatch = (pkgId, riderId) => {
    const rider = RIDERS.find(r => r.id === riderId);
    updatePkg(pkgId, { riderDeliveryId: riderId, status: "out_for_delivery" });
    addLog(pkgId, "admin-01", "admin", "Admin Hub", "DISPATCHED_TO_RIDER", "Baruk Central, CBD",
           `Assigned to ${rider?.name}`);
    addLog(pkgId, riderId, "rider", rider?.name, "OUT_FOR_DELIVERY", "Baruk Central, CBD");
  };
  \<close>
\<close>

definition template_name :: "string option \<Rightarrow> string" where
  "template_name n = (case n of None \<Rightarrow> ''undefined'' | Some x \<Rightarrow> x)"

definition onDispatch :: "int \<Rightarrow> state \<Rightarrow> string \<Rightarrow> string \<Rightarrow> state" where
  "onDispatch now s pkgId riderId =
     (let s1 = updatePkg now s pkgId [Set_riderDeliveryId riderId, Set_status out_for_delivery];
          s2 = addLog now s1 pkgId (Some ''admin-01'') ''admin'' (Some ''Admin Hub'')
                 ''DISPATCHED_TO_RIDER'' (Some ''Baruk Central, CBD'')
                 (Some (''Assigned to '' @ template_name (rider_name riderId)))
      in addLog now s2 pkgId (Some riderId) ''rider'' (rider_name riderId) ''OUT_FOR_DELIVERY''
           (Some ''Baruk Central, CBD'') None)"

text \<open>
  \<^verbatim>\<open>
  const onAcceptDelivery = (pkgId, riderId) => {
    const rider = RIDERS.find(r => r.id === riderId);
    updatePkg(pkgId, { riderDeliveryId: riderId });
    addLog(pkgId, riderId, "rider", rider?.name, "ACCEPTED_DELIVERY_JOB", "Baruk Central, CBD");
  };
  \<close>
\<close>

definition onAcceptDelivery :: "int \<Rightarrow> state \<Rightarrow> string \<Rightarrow> string \<Rightarrow> state" where
  "onAcceptDelivery now s pkgId riderId =
     addLog now (updatePkg now s pkgId [Set_riderDeliveryId riderId])
       pkgId (Some riderId) ''rider'' (rider_name riderId) ''ACCEPTED_DELIVERY_JOB''
       (Some ''Baruk Central, CBD'') None"

text \<open>
  \<^verbatim>\<open>
  const onVerifyOTP = (pkgId, type) => {
    const pkg = packages.find(p => p.id === pkgId);
    if (type === "warehouse") {
      updatePkg(pkgId, { otpWarehouseVerified: true });
      addLog(pkgId, pkg.riderCollectionId, "rider",
             RIDERS.find(r => r.id === pkg.riderCollectionId)?.name,
             "OTP_WAREHOUSE_VERIFIED", "Baruk Central, CBD", "High-value handoff confirmed");
    } else {
      updatePkg(pkgId, { otpDeliveryVerified: true });
      addLog(pkgId, pkg.riderDeliveryId, "rider",
             RIDERS.find(r => r.id === pkg.riderDeliveryId)?.name,
             "OTP_DELIVERY_VERIFIED", pkg.deliveryAddress, "High-value delivery OTP confirmed");
    }
  };
  \<close>
  When no package has the id, \<^verbatim>\<open>pkg\<close> is \<^verbatim>\<open>undefined\<close> and reading
  \<^verbatim>\<open>pkg.riderCollectionId\<close> throws a \<^verbatim>\<open>TypeError\<close>; the \<^verbatim>\<open>updatePkg\<close> before it has
  matched no package, so the state is as it was.
\<close>

datatype error = TypeError

definition onVerifyOTP :: "int \<Rightarrow> state \<Rightarrow> string \<Rightarrow> string \<Rightarrow> error + state" where
  "onVerifyOTP now s pkgId type =
     (case find_pkg s pkgId of
        None \<Rightarrow> Inl TypeError
      | Some pkg \<Rightarrow>
          if type = ''warehouse'' then
            Inr (addLog now (updatePkg now s pkgId [Set_otpWarehouseVerified True])
                   pkgId (riderCollectionId pkg) ''rider''
                   (Option.bind (riderCollectionId pkg) rider_name)
                   ''OTP_WAREHOUSE_VERIFIED'' (Some ''Baruk Central, CBD'')
                   (Some ''High-value handoff confirmed''))
          else
            Inr (addLog now (updatePkg now s pkgId [Set_otpDeliveryVerified True])
                   pkgId (riderDeliveryId pkg) ''rider''
                   (Option.bind (riderDeliveryId pkg) rider_name)
                   ''OTP_DELIVERY_VERIFIED'' (Some (deliveryAddress pkg))
                   (Some ''High-value delivery OTP confirmed'')))"

text \<open>
  \<^verbatim>\<open>
  const onMarkDelivered = (pkgId, riderId) => {
    const rider = RIDERS.find(r => r.id === riderId);
    const pkg = packages.find(p => p.id === pkgId);
    updatePkg(pkgId, { status: "delivered" });
    addLog(pkgId, riderId, "rider", rider?.name, "DELIVERED", pkg?.deliveryAddress,
           "Package delivered successfully");
  };
  \<close>
\<close>

definition onMarkDelivered :: "int \<Rightarrow> state \<Rightarrow> string \<Rightarrow> string \<Rightarrow> state" where
  "onMarkDelivered now s pkgId riderId =
     addLog now (updatePkg now s pkgId [Set_status delivered])
       pkgId (Some riderId) ''rider'' (rider_name riderId) ''DELIVERED''
       (map_option deliveryAddress (find_pkg s pkgId)) (Some ''Package delivered successfully'')"

text \<open>
  The six operations of the state machine as calls of the handlers, and a sequence of them,
  each with the clock value it runs at. A call that throws leaves the state as it was and
  the App goes on.
\<close>

datatype op =
    AcceptCollection string string
  | MarkAtWarehouse string string
  | AcceptDelivery string string
  | Dispatch string string
  | VerifyCode string string
  | MarkDelivered string string

fun step :: "int \<Rightarrow> state \<Rightarrow> op \<Rightarrow> error + state" where
  "step now s (AcceptCollection pkgId riderId) = Inr (onAcceptCollection now s pkgId riderId)"
| "step now s (MarkAtWarehouse pkgId riderId) = Inr (onMarkAtWarehouse now s pkgId riderId)"
| "step now s (AcceptDelivery pkgId riderId) = Inr (onAcceptDelivery now s pkgId riderId)"
| "step now s (Dispatch pkgId riderId) = Inr (onDispatch now s pkgId riderId)"
| "step now s (VerifyCode pkgId type) = onVerifyOTP now s pkgId type"
| "step now s (MarkDelivered pkgId riderId) = Inr (onMarkDelivered now s pkgId riderId)"

definition exec :: "int \<Rightarrow> state \<Rightarrow> op \<Rightarrow> state" where
  "exec now s x = (case step now s x of Inl e \<Rightarrow> s | Inr s' \<Rightarrow> s')"

fun run :: "state \<Rightarrow> (int \<times> op) list \<Rightarrow> state" where
  "run s [] = s"
| "run s ((now, x) # xs) = run (exec now s x) xs"

section \<open>State engine of the Supabase App\<close>

text \<open>
  The second program of the file keeps packages and logs in the tables \<^verbatim>\<open>packages\<close> and
  \<^verbatim>\<open>transit_logs\<close>; a row is the object \<^verbatim>\<open>dbPkgToApp\<close> or \<^verbatim>\<open>dbLogToApp\<close> makes of
  it, and the tables are a \<open>state\<close>. A handler's \<^verbatim>\<open>packages\<close> is the copy loaded from
  the table, taken here as up to date. The id and \<^verbatim>\<open>created_at\<close> of an inserted log row
  are the column defaults of the schema, given as the arguments \<open>uuid\<close> and \<open>now\<close>;
  failures of the store are not modelled.

  \<^verbatim>\<open>
  const addLog = async (packageId, actorId, actorRole, actorName, event, location, notes = null) => {
    await supabase.from("transit_logs").insert({
      package_id: packageId, actor_id: actorId, actor_role: actorRole,
      actor_name: actorName, event, location, notes,
    });
  };
  \<close>
\<close>

definition addLog_db ::
  "string \<Rightarrow> int \<Rightarrow> state \<Rightarrow> string \<Rightarrow> string option \<Rightarrow> string \<Rightarrow> string option \<Rightarrow> string \<Rightarrow>
   string option \<Rightarrow> string option \<Rightarrow> state" where
  "addLog_db uuid now s pk aid ar an ev loc nt =
     s\<lparr>logs := logs s @ [mk_log uuid pk aid ar an ev loc nt now]\<rparr>"

text \<open>
  \<^verbatim>\<open>
  const updatePkg = async (id, updates) => {
    const dbUpdates = {};
    if (updates.status               !== undefined) dbUpdates.status                 = updates.status;
    if (updates.riderCollectionId    !== undefined) dbUpdates.rider_collection_id    = updates.riderCollectionId;
    if (updates.riderDeliveryId      !== undefined) dbUpdates.rider_delivery_id      = updates.riderDeliveryId;
    if (updates.otpWarehouseVerified !== undefined) dbUpdates.otp_warehouse_verified = updates.otpWarehouseVerified;
    if (updates.otpDeliveryVerified  !== undefined) dbUpdates.otp_delivery_verified  = updates.otpDeliveryVerified;
    await supabase.from("packages").update(dbUpdates).eq("id", id);
  };
  \<close>
  The update writes the given columns of every row with the id and no other column.
\<close>

definition updatePkg_db :: "state \<Rightarrow> string \<Rightarrow> field_update list \<Rightarrow> state" where
  "updatePkg_db s i updates =
     s\<lparr>packages := map (\<lambda>p. if pkg_id p = i then spread p updates else p) (packages s)\<rparr>"

text \<open>
  The handlers of the Supabase App (\<^verbatim>\<open>user\<close> is the logged-in account):
  \<^verbatim>\<open>
  const onAcceptCollection = async (pkgId, riderId) => {
    const pkg = packages.find(p => p.id === pkgId);
    await updatePkg(pkgId, { riderCollectionId: riderId, status: "picked_up" });
    await addLog(pkgId, riderId, "rider", user.name, "COLLECTED_FROM_CUSTOMER", pkg?.pickupAddress, "Package collected");
  };
  const onMarkAtWarehouse = async (pkgId) => {
    await updatePkg(pkgId, { status: "at_warehouse" });
    await addLog(pkgId, user.id, "rider", user.name, "ARRIVED_AT_WAREHOUSE", "Baruk Central, CBD");
  };
  const onDispatch = async (pkgId, riderId) => {
    const rider = riders.find(r => r.id === riderId);
    await updatePkg(pkgId, { riderDeliveryId: riderId, status: "out_for_delivery" });
    await addLog(pkgId, user.id, "admin", user.name, "DISPATCHED_TO_RIDER", "Baruk Central, CBD", `Assigned to ${rider?.name}`);
    await addLog(pkgId, riderId, "rider", rider?.name, "OUT_FOR_DELIVERY", "Baruk Central, CBD");
  };
  const onAcceptDelivery = async (pkgId, riderId) => {
    await updatePkg(pkgId, { riderDeliveryId: riderId });
    await addLog(pkgId, riderId, "rider", user.name, "ACCEPTED_DELIVERY_JOB", "Baruk Central, CBD");
  };
  const onVerifyOTP = async (pkgId, type) => {
    const pkg = packages.find(p => p.id === pkgId);
    if (type === "warehouse") {
      await updatePkg(pkgId, { otpWarehouseVerified: true });
      await addLog(pkgId, user.id, "rider", user.name, "OTP_WAREHOUSE_VERIFIED", "Baruk Central, CBD", "High-value handoff confirmed");
    } else {
      await updatePkg(pkgId, { otpDeliveryVerified: true });
      await addLog(pkgId, user.id, "rider", user.name, "OTP_DELIVERY_VERIFIED", pkg?.deliveryAddress, "High-value delivery OTP confirmed");
    }
  };
  const onMarkDelivered = async (pkgId) => {
    const pkg = packages.find(p => p.id === pkgId);
    await updatePkg(pkgId, { status: "delivered" });
    await addLog(pkgId, user.id, "rider", user.name, "DELIVERED", pkg?.deliveryAddress, "Package delivered successfully");
  };
  \<close>
  \<open>riders\<close> is the list of rider profiles loaded from the store.
\<close>

definition onAcceptCollection_db ::
  "user \<Rightarrow> string \<Rightarrow> int \<Rightarrow> state \<Rightarrow> string \<Rightarrow> string \<Rightarrow> state" where
  "onAcceptCollection_db usr uuid now s pkgId riderId =
     addLog_db uuid now
       (updatePkg_db s pkgId [Set_riderCollectionId riderId, Set_status picked_up])
       pkgId (Some riderId) ''rider'' (Some (user_name usr)) ''COLLECTED_FROM_CUSTOMER''
       (map_option pickupAddress (find_pkg s pkgId)) (Some ''Package collected'')"

definition onMarkAtWarehouse_db :: "user \<Rightarrow> string \<Rightarrow> int \<Rightarrow> state \<Rightarrow> string \<Rightarrow> state" where
  "onMarkAtWarehouse_db usr uuid now s pkgId =
     addLog_db uuid now (updatePkg_db s pkgId [Set_status at_warehouse])
       pkgId (Some (user_id usr)) ''rider'' (Some (user_name usr)) ''ARRIVED_AT_WAREHOUSE''
       (Some ''Baruk Central, CBD'') None"

definition onDispatch_db ::
  "user \<Rightarrow> user list \<Rightarrow> string \<Rightarrow> string \<Rightarrow> int \<Rightarrow> state \<Rightarrow> string \<Rightarrow> string \<Rightarrow> state" where
  "onDispatch_db usr riders uuid1 uuid2 now s pkgId riderId =
     (let rider = map_option user_name (find (\<lambda>r. user_id r = riderId) riders);
          s1 = updatePkg_db s pkgId [Set_riderDeliveryId riderId, Set_status out_for_delivery];
          s2 = addLog_db uuid1 now s1 pkgId (Some (user_id usr)) ''admin'' (Some (user_name usr))
                 ''DISPATCHED_TO_RIDER'' (Some ''Baruk Central, CBD'')
                 (Some (''Assigned to '' @ template_name rider))
      in addLog_db uuid2 now s2 pkgId (Some riderId) ''rider'' rider ''OUT_FOR_DELIVERY''
           (Some ''Baruk Central, CBD'') None)"

definition onAcceptDelivery_db ::
  "user \<Rightarrow> string \<Rightarrow> int \<Rightarrow> state \<Rightarrow> string \<Rightarrow> string \<Rightarrow> state" where
  "onAcceptDelivery_db usr uuid now s pkgId riderId =
     addLog_db uuid now (updatePkg_db s pkgId [Set_riderDeliveryId riderId])
       pkgId (Some riderId) ''rider'' (Some (user_name usr)) ''ACCEPTED_DELIVERY_JOB''
       (Some ''Baruk Central, CBD'') None"

definition onVerifyOTP_db :: "user \<Rightarrow> string \<Rightarrow> int \<Rightarrow> state \<Rightarrow> string \<Rightarrow> string \<Rightarrow> state" where
  "onVerifyOTP_db usr uuid now s pkgId type =
     (if type = ''warehouse'' then
        addLog_db uuid now (updatePkg_db s pkgId [Set_otpWarehouseVerified True])
          pkgId (Some (user_id usr)) ''rider'' (Some (user_name usr))
          ''OTP_WAREHOUSE_VERIFIED'' (Some ''Baruk Central, CBD'')
          (Some ''High-value handoff confirmed'')
      else
        addLog_db uuid now (updatePkg_db s pkgId [Set_otpDeliveryVerified True])
          pkgId (Some (user_id usr)) ''rider'' (Some (user_name usr))
          ''OTP_DELIVERY_VERIFIED'' (map_option deliveryAddress (find_pkg s pkgId))
          (Some ''High-value delivery OTP confirmed''))"

definition onMarkDelivered_db :: "user \<Rightarrow> string \<Rightarrow> int \<Rightarrow> state \<Rightarrow> string \<Rightarrow> state" where
  "onMarkDelivered_db usr uuid now s pkgId =
     addLog_db uuid now (updatePkg_db s pkgId [Set_status delivered])
       pkgId (Some (user_id usr)) ''rider'' (Some (user_name usr)) ''DELIVERED''
       (map_option deliveryAddress (find_pkg s pkgId)) (Some ''Package delivered successfully'')"

text \<open>
  One call of a handler of the Supabase App, in an environment that holds the logged-in
  account, the loaded riders, two fresh row ids and the clock; and a sequence of calls.
\<close>

record env =
  env_user :: user
  env_riders :: "user list"
  env_uuid1 :: string
  env_uuid2 :: string
  env_now :: int

fun step_db :: "env \<Rightarrow> state \<Rightarrow> op \<Rightarrow> state" where
  "step_db e s (AcceptCollection pkgId riderId) =
     onAcceptCollection_db (env_user e) (env_uuid1 e) (env_now e) s pkgId riderId"
| "step_db e s (MarkAtWarehouse pkgId riderId) =
     onMarkAtWarehouse_db (env_user e) (env_uuid1 e) (env_now e) s pkgId"
| "step_db e s (AcceptDelivery pkgId riderId) =
     onAcceptDelivery_db (env_user e) (env_uuid1 e) (env_now e) s pkgId riderId"
| "step_db e s (Dispatch pkgId riderId) =
     onDispatch_db (env_user e) (env_riders e) (env_uuid1 e) (env_uuid2 e) (env_now e) s
       pkgId riderId"
| "step_db e s (VerifyCode pkgId type) =
     onVerifyOTP_db (env_user e) (env_uuid1 e) (env_now e) s pkgId type"
| "step_db e s (MarkDelivered pkgId riderId) =
     onMarkDelivered_db (env_user e) (env_uuid1 e) (env_now e) s pkgId"

fun run_db :: "state \<Rightarrow> (env \<times> op) list \<Rightarrow> state" where
  "run_db s [] = s"
| "run_db s ((e, x) # xs) = run_db (step_db e s x) xs"

section \<open>The rider and admin screens\<close>

text \<open>
  \<^verbatim>\<open>RiderApp\<close> renders a \<^verbatim>\<open>PkgCard\<close> for every package of the feed that is open, and a
  card holds a button only under the condition written in front of it. The conditions, for
  the viewing \<open>rider\<close> and the package \<open>pkg\<close> of the card:
  \<^verbatim>\<open>
  const isMyCollection = pkg.riderCollectionId === rider.id;
  const isMyDelivery = pkg.riderDeliveryId === rider.id;
  const needsWarehouseOTP = pkg.isHighValue && isMyCollection && pkg.status === "at_warehouse" && !pkg.otpWarehouseVerified;
  const needsDeliveryOTP = pkg.isHighValue && isMyDelivery && pkg.status === "out_for_delivery" && !pkg.otpDeliveryVerified;
  \<close>
\<close>

definition isMyCollection :: "user \<Rightarrow> package \<Rightarrow> bool" where
  "isMyCollection rider pkg = (riderCollectionId pkg = Some (user_id rider))"

definition isMyDelivery :: "user \<Rightarrow> package \<Rightarrow> bool" where
  "isMyDelivery rider pkg = (riderDeliveryId pkg = Some (user_id rider))"

definition needsWarehouseOTP :: "user \<Rightarrow> package \<Rightarrow> bool" where
  "needsWarehouseOTP rider pkg =
     (isHighValue pkg \<and> isMyCollection rider pkg \<and> status pkg = at_warehouse
      \<and> \<not> otpWarehouseVerified pkg)"

definition needsDeliveryOTP :: "user \<Rightarrow> package \<Rightarrow> bool" where
  "needsDeliveryOTP rider pkg =
     (isHighValue pkg \<and> isMyDelivery rider pkg \<and> status pkg = out_for_delivery
      \<and> \<not> otpDeliveryVerified pkg)"

text \<open>
  The three feeds:
  \<^verbatim>\<open>
  const collectionFeed = packages.filter(p => p.status === "searching_rider" && p.deliveryZone !== rider.zone);
  const myActive = packages.filter(p => p.riderCollectionId === rider.id || p.riderDeliveryId === rider.id);
  const deliveryFeed = packages.filter(p => p.status === "at_warehouse" && p.deliveryZone === rider.zone && !p.riderDeliveryId);
  \<close>
  \<^verbatim>\<open>!p.riderDeliveryId\<close> holds of \<^verbatim>\<open>null\<close> and of the empty string.
\<close>

definition collectionFeed :: "user \<Rightarrow> package list \<Rightarrow> package list" where
  "collectionFeed rider ps =
     filter (\<lambda>p. status p = searching_rider \<and> Some (deliveryZone p) \<noteq> user_zone rider) ps"

definition myActive :: "user \<Rightarrow> package list \<Rightarrow> package list" where
  "myActive rider ps = filter (\<lambda>p. isMyCollection rider p \<or> isMyDelivery rider p) ps"

definition deliveryFeed :: "user \<Rightarrow> package list \<Rightarrow> package list" where
  "deliveryFeed rider ps =
     filter (\<lambda>p. status p = at_warehouse \<and> Some (deliveryZone p) = user_zone rider
                \<and> (riderDeliveryId p = None \<or> riderDeliveryId p = Some [])) ps"

definition card_shown :: "user \<Rightarrow> state \<Rightarrow> package \<Rightarrow> bool" where
  "card_shown rider s pkg =
     (pkg \<in> set (collectionFeed rider (packages s)) \<or> pkg \<in> set (myActive rider (packages s))
      \<or> pkg \<in> set (deliveryFeed rider (packages s)))"

text \<open>
  \<^verbatim>\<open>
  const handleOTPVerify = (pkg, type) => {
    const entered = otpInput[`${pkg.id}-${type}`] || "";
    const correct = type === "warehouse" ? pkg.otpWarehouse : pkg.otpDelivery;
    if (entered === correct) {
      onVerifyOTP(pkg.id, type);
      setOtpError(e => ({...e, [`${pkg.id}-${type}`]: false}));
    } else {
      setOtpError(e => ({...e, [`${pkg.id}-${type}`]: true}));
    }
  };
  \<close>
  \<open>typed\<close> is the entry of \<^verbatim>\<open>otpInput\<close> for the card, \<open>None\<close> when nothing was typed;
  the result holds the state and the error flag the call sets for the card.
\<close>

definition orEmpty :: "string option \<Rightarrow> string" where
  "orEmpty typed = (case typed of None \<Rightarrow> [] | Some x \<Rightarrow> x)"

definition handleOTPVerify ::
  "int \<Rightarrow> state \<Rightarrow> package \<Rightarrow> string \<Rightarrow> string option \<Rightarrow> error + (state \<times> bool)" where
  "handleOTPVerify now s pkg type typed =
     (let entered = orEmpty typed;
          correct = (if type = ''warehouse'' then otpWarehouse pkg else otpDelivery pkg)
      in if Some entered = correct then
           (case onVerifyOTP now s (pkg_id pkg) type of
              Inl e \<Rightarrow> Inl e
            | Inr s' \<Rightarrow> Inr (s', False))
         else Inr (s, True))"

text \<open>
  A click on a control of a screen of the in-memory App. The rider's buttons are those
  of \<^verbatim>\<open>PkgCard\<close>:
  \<^verbatim>\<open>
  {pkg.status === "searching_rider" && !isMyCollection && ( ... onAcceptCollection(pkg.id, rider.id) ... )}
  {pkg.status === "searching_rider" && isMyCollection && ( ... onMarkAtWarehouse(pkg.id, rider.id) ... )}
  {needsWarehouseOTP && ( ... handleOTPVerify(pkg, "warehouse") ... )}
  {pkg.status === "at_warehouse" && !isMyDelivery && pkg.deliveryZone === rider.zone && ( ... onAcceptDelivery(pkg.id, rider.id) ... )}
  {needsDeliveryOTP && ( ... handleOTPVerify(pkg, "delivery") ... )}
  {pkg.status === "out_for_delivery" && isMyDelivery && (!pkg.isHighValue || pkg.otpDeliveryVerified) && ( ... onMarkDelivered(pkg.id, rider.id) ... )}
  \<close>
  The admin's Dispatch button is in a row of
  \<^verbatim>\<open>atHub = packages.filter(p => p.status === "at_warehouse")\<close> and runs
  \<^verbatim>\<open>
  const handleDispatch = (pkg) => {
    if (!selectedRider) return;
    onDispatch(pkg.id, selectedRider);
    ...
  };
  \<close>
\<close>

datatype click =
    Click_AcceptCollection user package
  | Click_MarkAtWarehouse user package
  | Click_VerifyWarehouse user package "string option"
  | Click_AcceptDelivery user package
  | Click_VerifyDelivery user package "string option"
  | Click_MarkDelivered user package
  | Click_Dispatch package string

text \<open>
  The outcome of a click: the control is not on the screen, or its handler throws, or it
  runs and leaves a state.
\<close>

datatype outcome = NotOffered | Threw error | Done state

definition of_result :: "error + state \<Rightarrow> outcome" where
  "of_result r = (case r of Inl e \<Rightarrow> Threw e | Inr s \<Rightarrow> Done s)"

fun ui_step :: "int \<Rightarrow> state \<Rightarrow> click \<Rightarrow> outcome" where
  "ui_step now s (Click_AcceptCollection rider pkg) =
     (if card_shown rider s pkg \<and> status pkg = searching_rider \<and> \<not> isMyCollection rider pkg
      then Done (onAcceptCollection now s (pkg_id pkg) (user_id rider)) else NotOffered)"
| "ui_step now s (Click_MarkAtWarehouse rider pkg) =
     (if card_shown rider s pkg \<and> status pkg = searching_rider \<and> isMyCollection rider pkg
      then Done (onMarkAtWarehouse now s (pkg_id pkg) (user_id rider)) else NotOffered)"
| "ui_step now s (Click_VerifyWarehouse rider pkg typed) =
     (if card_shown rider s pkg \<and> needsWarehouseOTP rider pkg
      then of_result (map_sum id fst (handleOTPVerify now s pkg ''warehouse'' typed))
      else NotOffered)"
| "ui_step now s (Click_AcceptDelivery rider pkg) =
     (if card_shown rider s pkg \<and> status pkg = at_warehouse \<and> \<not> isMyDelivery rider pkg
         \<and> Some (deliveryZone pkg) = user_zone rider
      then Done (onAcceptDelivery now s (pkg_id pkg) (user_id rider)) else NotOffered)"
| "ui_step now s (Click_VerifyDelivery rider pkg typed) =
     (if card_shown rider s pkg \<and> needsDeliveryOTP rider pkg
      then of_result (map_sum id fst (handleOTPVerify now s pkg ''delivery'' typed))
      else NotOffered)"
| "ui_step now s (Click_MarkDelivered rider pkg) =
     (if card_shown rider s pkg \<and> status pkg = out_for_delivery \<and> isMyDelivery rider pkg
         \<and> (\<not> isHighValue pkg \<or> otpDeliveryVerified pkg)
      then Done (onMarkDelivered now s (pkg_id pkg) (user_id rider)) else NotOffered)"
| "ui_step now s (Click_Dispatch pkg selectedRider) =
     (if pkg \<in> set (packages s) \<and> status pkg = at_warehouse \<and> selectedRider \<noteq> []
      then Done (onDispatch now s (pkg_id pkg) selectedRider) else NotOffered)"

text \<open>A sequence of clicks, each on a control that is on the screen when it is made.\<close>

fun ui_run :: "state \<Rightarrow> (int \<times> click) list \<Rightarrow> state option" where
  "ui_run s [] = Some s"
| "ui_run s ((now, c) # cs) =
     (case ui_step now s c of Done s' \<Rightarrow> ui_run s' cs | _ \<Rightarrow> None)"

text \<open>The order of the statuses, and a move against it between two statuses of the order.\<close>

fun rank :: "status \<Rightarrow> nat" where
  "rank searching_rider = 0"
| "rank picked_up = 1"
| "rank at_warehouse = 2"
| "rank out_for_delivery = 3"
| "rank delivered = 4"
| "rank cancelled = 5"

definition moves_backward :: "status \<Rightarrow> status \<Rightarrow> bool" where
  "moves_backward a b = (a \<noteq> cancelled \<and> b \<noteq> cancelled \<and> rank b < rank a)"

text \<open>
  A client of the Supabase App renders its screen from the copy of the tables it has
  loaded, \<^verbatim>\<open>packages\<close>, which lags behind the store while another client writes. The
  handler \<^verbatim>\<open>onAcceptCollection\<close> of the Supabase App as a client runs it, with its
  copy \<open>view\<close> and the store \<open>s\<close>: the lookup \<^verbatim>\<open>packages.find\<close> reads the copy, the
  update and the insert go to the store.
\<close>

definition onAcceptCollection_view ::
  "user \<Rightarrow> string \<Rightarrow> int \<Rightarrow> state \<Rightarrow> state \<Rightarrow> string \<Rightarrow> string \<Rightarrow> state" where
  "onAcceptCollection_view usr uuid now view s pkgId riderId =
     addLog_db uuid now
       (updatePkg_db s pkgId [Set_riderCollectionId riderId, Set_status picked_up])
       pkgId (Some riderId) ''rider'' (Some (user_name usr)) ''COLLECTED_FROM_CUSTOMER''
       (map_option pickupAddress (find_pkg view pkgId)) (Some ''Package collected'')"

text \<open>
  The Accept Collection button of the Supabase App, on the card of \<open>pkg\<close> in the copy
  \<open>view\<close> of the logged-in rider (\<^verbatim>\<open>currentRider={user}\<close>):
  \<^verbatim>\<open>
  {pkg.status === "searching_rider" && !isMyCollection && ( ... onAcceptCollection(pkg.id, rider.id) ... )}
  \<close>
\<close>

definition click_accept_db :: "env \<Rightarrow> state \<Rightarrow> state \<Rightarrow> package \<Rightarrow> outcome" where
  "click_accept_db e view s pkg =
     (if card_shown (env_user e) view pkg \<and> status pkg = searching_rider
         \<and> \<not> isMyCollection (env_user e) pkg
      then Done (onAcceptCollection_view (env_user e) (env_uuid1 e) (env_now e) view s
                   (pkg_id pkg) (user_id (env_user e)))
      else NotOffered)"

text \<open>A package that has a collection rider has left \<open>searching_rider\<close>.\<close>

definition bound_past :: "package \<Rightarrow> bool" where
  "bound_past p = (riderCollectionId p = None \<or> status p \<noteq> searching_rider)"

fun is_accept :: "op \<Rightarrow> bool" where
  "is_accept (AcceptCollection pkgId riderId) = True"
| "is_accept x = False"

section \<open>Properties of packages\<close>


text \<open>The fee invariant of a package, and two packages with the same three fee fields.\<close>

definition fee_invariant :: "package \<Rightarrow> bool" where
  "fee_invariant p = (total_fee p = base p + protectionFee p)"

definition same_fees :: "package \<Rightarrow> package \<Rightarrow> bool" where
  "same_fees p p' =
     (base p' = base p \<and> protectionFee p' = protectionFee p \<and> total_fee p' = total_fee p)"

text \<open>A verified flag that is set in \<open>p\<close> is set in \<open>p'\<close>.\<close>

definition flags_kept :: "package \<Rightarrow> package \<Rightarrow> bool" where
  "flags_kept p p' =
     ((otpWarehouseVerified p \<longrightarrow> otpWarehouseVerified p')
      \<and> (otpDeliveryVerified p \<longrightarrow> otpDeliveryVerified p'))"

definition kept :: "package \<Rightarrow> package \<Rightarrow> bool" where
  "kept p p' = (pkg_id p' = pkg_id p \<and> same_fees p p' \<and> flags_kept p p')"

text \<open>
  What a click leaves of a package: its id; its status, or a later one of the order; and
  its collection rider once the status is past \<open>searching_rider\<close>.
\<close>

definition stays_or_advances :: "status \<Rightarrow> status \<Rightarrow> bool" where
  "stays_or_advances a b = (a = b \<or> (a \<noteq> cancelled \<and> b \<noteq> cancelled \<and> rank a < rank b))"

definition ui_kept :: "package \<Rightarrow> package \<Rightarrow> bool" where
  "ui_kept p p' =
     (pkg_id p' = pkg_id p \<and> stays_or_advances (status p) (status p')
      \<and> (status p \<noteq> searching_rider \<longrightarrow> riderCollectionId p' = riderCollectionId p))"

definition distinct_ids :: "state \<Rightarrow> bool" where
  "distinct_ids s = distinct (map pkg_id (packages s))"

text \<open>
  Example data: the customer account of \<^verbatim>\<open>MOCK_ACCOUNTS\<close>, a booking form with a given
  declared value, and the riders \<^verbatim>\<open>rider-04\<close> and \<^verbatim>\<open>rider-02\<close> of \<^verbatim>\<open>RIDERS\<close>.
\<close>

definition customer :: user where
  "customer = \<lparr>user_id = ''cust-current'', user_name = ''Amara Osei'', user_phone = None,
     user_zone = None, user_role = ''customer''\<rparr>"

definition booking :: "number \<Rightarrow> form" where
  "booking v = \<lparr>form_pickupAddress = ''Sarit Centre'', form_deliveryAddress = ''Garden City'',
     form_deliveryZone = ''Kasarani'', form_description = ''Phone'', form_size = ''small'',
     form_declaredValue = Some v\<rparr>"

definition rider04 :: user where
  "rider04 = \<lparr>user_id = ''rider-04'', user_name = ''Brian Omondi'',
     user_phone = Some ''0712345004'', user_zone = Some ''Kasarani'', user_role = ''rider''\<rparr>"

definition rider02 :: user where
  "rider02 = \<lparr>user_id = ''rider-02'', user_name = ''Faith Wanjiru'',
     user_phone = Some ''0712345002'', user_zone = Some ''Ngong'', user_role = ''rider''\<rparr>"

text \<open>A sequence of handler calls on the initial state.\<close>

definition example_ops :: "(int \<times> op) list" where
  "example_ops = [(1, Dispatch ''pkg-002'' ''rider-04''), (2, VerifyCode ''pkg-002'' ''delivery''),
     (3, MarkDelivered ''pkg-002'' ''rider-04''), (4, AcceptCollection ''pkg-001'' ''rider-02'')]"

text \<open>
  Example states: the initial state after the admin has dispatched \<^verbatim>\<open>pkg-002\<close> to
  \<^verbatim>\<open>rider-04\<close>, and after the customer has booked a package of declared value 3000.
\<close>

definition rider03 :: user where
  "rider03 = \<lparr>user_id = ''rider-03'', user_name = ''Zawadi Mwangi'',
     user_phone = Some ''0712345003'', user_zone = Some ''Ruiru'', user_role = ''rider''\<rparr>"

definition dispatched :: state where
  "dispatched = onDispatch 1 (initial_state 0) ''pkg-002'' ''rider-04''"

definition booked :: "state \<times> package" where
  "booked = onCreatePackage customer 7 ''AB12CD'' (1 / 3) (1 / 2) (initial_state 0) (booking 3000)"

text \<open>The booked package after \<^verbatim>\<open>rider-02\<close> has accepted its collection.\<close>

definition accepted :: state where
  "accepted = onAcceptCollection 8 (fst booked) ''pkg-7'' ''rider-02''"

text \<open>
  The double that the literal \<^verbatim>\<open>8566.666666666666\<close> denotes, and a booking of declared
  value \<open>10 ^ 20\<close>.
\<close>

definition v_frac :: number where
  "v_frac = 4709574805640533 / 549755813888"

definition booked_big :: "state \<times> package" where
  "booked_big =
     onCreatePackage customer 7 ''AB12CD'' (1 / 3) (1 / 2) (initial_state 0) (booking (10 ^ 20))"

text \<open>
  After the acceptance, the admin dispatches \<^verbatim>\<open>pkg-002\<close>. And two clients of the
  Supabase App, \<^verbatim>\<open>rider-02\<close> and \<^verbatim>\<open>rider-03\<close>, who have both loaded the tables when
  the booked package was still \<open>searching_rider\<close>, accept it one after the other.
\<close>

definition after_dispatch :: state where
  "after_dispatch = onDispatch 9 accepted ''pkg-002'' ''rider-04''"

definition env_r2 :: env where
  "env_r2 = \<lparr>env_user = rider02, env_riders = RIDERS, env_uuid1 = ''row-a'', env_uuid2 = ''row-b'',
     env_now = 8\<rparr>"

definition env_r3 :: env where
  "env_r3 = \<lparr>env_user = rider03, env_riders = RIDERS, env_uuid1 = ''row-c'', env_uuid2 = ''row-d'',
     env_now = 9\<rparr>"

definition race1 :: state where
  "race1 = onAcceptCollection_view rider02 ''row-a'' 8 (fst booked) (fst booked) ''pkg-7'' ''rider-02''"

definition race2 :: state where
  "race2 = onAcceptCollection_view rider03 ''row-c'' 9 (fst booked) race1 ''pkg-7'' ''rider-03''"

section \<open>Facts about the handlers\<close>

lemma packages_addLog [simp]: "packages (addLog now s pk aid ar an ev loc nt) = packages s"
  by (simp add: addLog_def)

lemma logs_addLog [simp]:
  "logs (addLog now s pk aid ar an ev loc nt) =
     logs s @ [mk_log (''log-'' @ toString now) pk aid ar an ev loc nt now]"
  by (simp add: addLog_def)

lemma packages_updatePkg:
  "packages (updatePkg now s i us) =
     map (\<lambda>p. if pkg_id p = i then (spread p us)\<lparr>updatedAt := Some now\<rparr> else p) (packages s)"
  by (simp add: updatePkg_def)

lemma logs_updatePkg [simp]: "logs (updatePkg now s i us) = logs s"
  by (simp add: updatePkg_def)

lemma packages_addLog_db [simp]:
  "packages (addLog_db uuid now s pk aid ar an ev loc nt) = packages s"
  by (simp add: addLog_db_def)

lemma logs_addLog_db [simp]:
  "logs (addLog_db uuid now s pk aid ar an ev loc nt) =
     logs s @ [mk_log uuid pk aid ar an ev loc nt now]"
  by (simp add: addLog_db_def)

lemma packages_updatePkg_db:
  "packages (updatePkg_db s i us) =
     map (\<lambda>p. if pkg_id p = i then spread p us else p) (packages s)"
  by (simp add: updatePkg_db_def)

lemma logs_updatePkg_db [simp]: "logs (updatePkg_db s i us) = logs s"
  by (simp add: updatePkg_db_def)

lemma list_all2_map_self: "(\<And>x. x \<in> set xs \<Longrightarrow> R x (f x)) \<Longrightarrow> list_all2 R xs (map f xs)"
  by (simp add: list_all2_map2 list_all2_same)

subsection \<open>Decimal digits\<close>





section \<open>Rounding to the nearest double\<close>

lemma exponent_bounds:
  assumes "1 \<le> x"
  shows "0 \<le> exponent x" and "2 ^ nat (exponent x) \<le> x" and "x < 2 * 2 ^ nat (exponent x)"
proof -
  let ?b = "bitlen \<lfloor>x\<rfloor>"
  from assms have pos: "0 < \<lfloor>x\<rfloor>" by simp
  from bitlen_bounds [OF pos]
  have lo: "2 ^ nat (?b - 1) \<le> \<lfloor>x\<rfloor>" and hi: "\<lfloor>x\<rfloor> < 2 ^ nat ?b" by simp_all
  have b1: "1 \<le> ?b"
    using pos bitlen_eq_zero_iff [of "\<lfloor>x\<rfloor>"] bitlen_nonneg [of "\<lfloor>x\<rfloor>"] by linarith
  have e: "exponent x = ?b - 1" using assms by (simp add: exponent_def)
  show "0 \<le> exponent x" using b1 e by simp
  have "(of_int (2 ^ nat (?b - 1)) :: rat) \<le> of_int \<lfloor>x\<rfloor>" using lo by (simp only: of_int_le_iff)
  also have "\<dots> \<le> x" by simp
  finally show "2 ^ nat (exponent x) \<le> x" by (simp add: e)
  have "\<lfloor>x\<rfloor> + 1 \<le> 2 ^ nat ?b" using hi by simp
  then have "(of_int (\<lfloor>x\<rfloor> + 1) :: rat) \<le> of_int (2 ^ nat ?b)" by (simp only: of_int_le_iff)
  moreover have "x < of_int (\<lfloor>x\<rfloor> + 1)" by simp linarith
  ultimately have "x < 2 ^ nat ?b" by simp
  moreover have "nat ?b = Suc (nat (?b - 1))" using b1 by simp
  ultimately show "x < 2 * 2 ^ nat (exponent x)" by (simp add: e)
qed

lemma exponent_eqI:
  assumes "2 ^ n \<le> x" and "x < 2 * 2 ^ n"
  shows "exponent x = int n"
proof -
  have "(1::rat) \<le> 2 ^ n" by simp
  with assms(1) have x1: "1 \<le> x" by linarith
  note b = exponent_bounds [OF x1]
  let ?a = "nat (exponent x)"
  have "(2::rat) ^ ?a < 2 ^ Suc n" using b(2) assms(2) by simp
  then have 1: "?a < Suc n" by (simp only: power_strict_increasing_iff rel_simps)
  have "(2::rat) ^ n < 2 ^ Suc ?a" using b(3) assms(1) by simp
  then have 2: "n < Suc ?a" by (simp only: power_strict_increasing_iff rel_simps)
  from 1 2 have "?a = n" by simp
  with b(1) show ?thesis by simp
qed

lemma ulp_ge1:
  assumes "1 \<le> x"
  shows "ulp x = 2 powi (exponent x - 52)" and "0 < ulp x"
  using exponent_bounds(1) [OF assms] by (simp_all add: ulp_def max_def)

lemma round_even_close: "\<bar>of_int (round_even y) - y\<bar> \<le> 1 / 2"
proof -
  have f: "of_int \<lfloor>y\<rfloor> \<le> y" "y < of_int \<lfloor>y\<rfloor> + 1" by linarith+
  show ?thesis
  proof (cases "y - of_int \<lfloor>y\<rfloor> < 1 / 2")
    case True
    then have "round_even y = \<lfloor>y\<rfloor>" by (simp add: round_even_def)
    with True f show ?thesis by simp
  next
    case False
    then have "round_even y = \<lfloor>y\<rfloor> \<and> y - of_int \<lfloor>y\<rfloor> = 1 / 2 \<or> round_even y = \<lfloor>y\<rfloor> + 1"
      by (auto simp: round_even_def Let_def)
    with False f show ?thesis by auto
  qed
qed

lemma round_even_eqI:
  assumes "\<bar>of_int N - y\<bar> < 1 / 2"
  shows "round_even y = N"
proof -
  from round_even_close [of y] assms
  have "\<bar>(of_int (round_even y) :: rat) - of_int N\<bar> < 1" by linarith
  then have "\<bar>(of_int (round_even y - N) :: rat)\<bar> < of_int 1" by simp
  then have "\<bar>round_even y - N\<bar> < 1" by (simp only: of_int_abs [symmetric] of_int_less_iff)
  then show ?thesis by simp
qed

lemma round_even_of_int [simp]: "round_even (of_int z) = z"
  by (rule round_even_eqI) simp

lemma fl_ge1:
  assumes "1 \<le> x"
  shows "fl x = of_int (round_even (x / ulp x)) * ulp x"
  using assms by (simp add: fl_def)

lemma fl_close:
  assumes "1 \<le> x"
  shows "\<bar>fl x - x\<bar> \<le> ulp x / 2"
proof -
  note u = ulp_ge1 [OF assms]
  have "fl x - x = (of_int (round_even (x / ulp x)) - x / ulp x) * ulp x"
    using u(2) by (simp add: fl_ge1 [OF assms] left_diff_distrib)
  then have "\<bar>fl x - x\<bar> = \<bar>of_int (round_even (x / ulp x)) - x / ulp x\<bar> * ulp x"
    using u(2) by (simp only: abs_mult abs_of_pos)
  also have "\<dots> \<le> 1 / 2 * ulp x"
    using u(2) round_even_close by (intro mult_right_mono) simp_all
  finally show ?thesis by simp
qed

lemma ulp_pow:
  assumes "1 \<le> x"
  shows "ulp x * 2 ^ 52 = 2 ^ nat (exponent x)"
proof -
  have "ulp x = 2 powi exponent x / 2 powi 52"
    unfolding ulp_ge1(1) [OF assms] by (rule power_int_diff) simp
  then show ?thesis using exponent_bounds(1) [OF assms] by (simp add: power_int_def)
qed

lemma ulp_le:
  assumes "1 \<le> x"
  shows "ulp x * 2 ^ 52 \<le> x" and "x < ulp x * 2 ^ 53"
  using exponent_bounds(2,3) [OF assms] ulp_pow [OF assms] by simp_all

lemma fl_eqI:
  assumes "2 ^ n \<le> x" and "x < 2 * 2 ^ n" and "\<bar>of_int N - x / 2 powi (int n - 52)\<bar> < 1 / 2"
  shows "fl x = of_int N * 2 powi (int n - 52)"
proof -
  have "(1::rat) \<le> 2 ^ n" by simp
  with assms(1) have x1: "1 \<le> x" by linarith
  have u: "ulp x = 2 powi (int n - 52)"
    by (simp add: ulp_ge1(1) [OF x1] exponent_eqI [OF assms(1,2)])
  show ?thesis
    unfolding fl_ge1 [OF x1] u using assms(3) by (simp add: round_even_eqI)
qed

lemma fl_of_int:
  assumes "1 \<le> n" and "n < 2 ^ 53"
  shows "fl (of_int n) = of_int n"
proof -
  let ?x = "of_int n :: rat"
  have x1: "1 \<le> ?x" using assms(1) by simp
  let ?e = "nat (exponent ?x)"
  note b = exponent_bounds [OF x1]
  have "(2::rat) ^ ?e < 2 ^ 53"
  proof -
    have "(2::rat) ^ ?e \<le> ?x" by (rule b(2))
    also have "?x < of_int (2 ^ 53)" using assms(2) by (simp only: of_int_less_iff)
    finally show ?thesis by simp
  qed
  then have "?e < 53" by (simp only: power_strict_increasing_iff rel_simps)
  then have le: "?e \<le> 52" by simp
  have "ulp ?x * 2 ^ 52 = 2 ^ ?e" by (rule ulp_pow [OF x1])
  also have "\<dots> * 2 ^ (52 - ?e) = (2::rat) ^ 52" using le by (simp flip: power_add)
  finally have m: "ulp ?x * 2 ^ (52 - ?e) = 1" by simp
  then have "?x / ulp ?x = ?x * 2 ^ (52 - ?e)"
    using ulp_ge1(2) [OF x1] by (simp add: field_simps)
  also have "\<dots> = of_int (n * 2 ^ (52 - ?e))" by simp
  finally have "round_even (?x / ulp ?x) = n * 2 ^ (52 - ?e)" by (simp only: round_even_of_int)
  then have "fl ?x = of_int (n * 2 ^ (52 - ?e)) * ulp ?x" by (simp only: fl_ge1 [OF x1])
  also have "\<dots> = ?x * (ulp ?x * 2 ^ (52 - ?e))" by simp
  finally show ?thesis by (simp only: m mult_1_right)
qed


lemma c015_value: "c015 = 1080863910568919 / 72057594037927936"
proof -
  let ?x = "3 / 200 :: rat"
  have c: "\<lceil>200 / 3 :: rat\<rceil> = 67" by (simp add: ceiling_eq_iff)
  have b: "bitlen 66 = 7" using bitlen_twopow_add_eq [of 2 6] by simp
  have e: "exponent ?x = - 7" by (simp add: exponent_def c b)
  have u: "ulp ?x = 1 / 2 ^ 59" by (simp add: ulp_def e power_int_minus_divide)
  have "round_even (?x / ulp ?x) = 8646911284551352"
    unfolding u by (rule round_even_eqI) simp
  then show ?thesis by (simp add: c015_def fl_def u)
qed


lemma fl_near:
  assumes "1 \<le> x"
  shows "x - x / 2 ^ 53 \<le> fl x" and "fl x \<le> x + x / 2 ^ 53"
proof -
  have "ulp x / 2 \<le> x / 2 ^ 53" using ulp_le(1) [OF assms] by simp
  with fl_close [OF assms] show "x - x / 2 ^ 53 \<le> fl x" and "fl x \<le> x + x / 2 ^ 53"
    by linarith+
qed

lemma whole_product:
  fixes v :: int
  assumes v1: "5000 < v" and v2: "v \<le> 10 ^ 15"
  shows "\<lfloor>fl (of_int v * c015) + 1 / 2\<rfloor> = \<lfloor>of_int v * (15 / 1000) + 1 / 2 :: rat\<rfloor>"
proof -
  define x :: rat where "x = of_int v * c015"
  define t :: rat where "t = of_int v * (3 / 200)"
  define m where "m = 3 * v + 100"
  define k where "k = m div 200"
  define j where "j = m mod 200"
  have "(of_int 5000 :: rat) < of_int v" using v1 by (simp only: of_int_less_iff)
  moreover have "(of_int v :: rat) \<le> of_int 1000000000000000"
    using v2 by (simp only: of_int_le_iff) simp
  ultimately have vr: "(5000::rat) < of_int v" "(of_int v :: rat) \<le> 1000000000000000"
    by simp_all
  have xt: "x = t - of_int v / 1801439850948198400"
    by (simp add: x_def t_def c015_value field_simps)
  have tb: "75 < t" "t \<le> 15000000000000" using vr by (simp_all add: t_def)
  have xb: "74 < x" "x < t" using vr tb by (simp_all add: xt)
  then have x1: "1 \<le> x" by simp
  note near = fl_near [OF x1]
  have small: "x / 2 ^ 53 < 1 / 600" using xb tb by simp
  have dsmall: "of_int v / 1801439850948198400 < (1 / 600 :: rat)" using vr by simp
  have mkj: "m = 200 * k + j" "0 \<le> j" "j < 200" by (simp_all add: k_def j_def)
  have tm: "t + 1 / 2 = of_int m / 200" by (simp add: t_def m_def)
  have tk: "t + 1 / 2 = of_int k + of_int j / 200" by (simp add: tm mkj(1))
  have jr: "(0::rat) \<le> of_int j" "(of_int j :: rat) \<le> 199"
    using mkj(2,3) by simp_all
  have exact: "\<lfloor>of_int v * (15 / 1000) + 1 / 2 :: rat\<rfloor> = k"
  proof -
    have "of_int v * (15 / 1000) + 1 / 2 = (of_int m :: rat) / of_int 200" by (simp add: m_def)
    then show ?thesis by (simp only: floor_divide_of_int_eq k_def)
  qed
  have upper: "fl x + 1 / 2 < of_int k + 1"
    using near(2) small xb(2) tk jr by linarith
  have lower: "of_int k \<le> fl x + 1 / 2"
  proof (cases "j = 0")
    case False
    with mkj(2) have "1 \<le> j" by simp
    then have "(1::rat) \<le> of_int j" by simp
    with near(1) small dsmall tk xt show ?thesis by linarith
  next
    case True
    with tk have th: "t = of_int k - 1 / 2" by simp
    let ?n = "nat (exponent x)"
    let ?u = "ulp x"
    note up = ulp_pow [OF x1]
    note ul = ulp_le [OF x1]
    note upos = ulp_ge1(2) [OF x1]
    have "(2::rat) ^ ?n < 2 ^ 52"
    proof -
      have "(2::rat) ^ ?n \<le> x" by (rule exponent_bounds(2) [OF x1])
      also have "x < 2 ^ 52" using xb(2) tb(2) by simp
      finally show ?thesis .
    qed
    then have "?n < 52" by (simp only: power_strict_increasing_iff rel_simps)
    then have n51: "?n \<le> 51" by simp
    define T where "T = (2 * k - 1) * 2 ^ (51 - ?n)"
    have p: "(2::rat) ^ (51 - ?n) * 2 ^ ?n = 2 ^ 51" using n51 by (simp flip: power_add)
    have "of_int T * (?u * 2 ^ 52) = of_int (2 * k - 1) * ((2::rat) ^ (51 - ?n) * 2 ^ ?n)"
      unfolding up by (simp add: T_def)
    also have "\<dots> = (of_int k - 1 / 2) * (2::rat) ^ 52" unfolding p by simp
    finally have "(of_int T * ?u) * 2 ^ 52 = (of_int k - 1 / 2) * (2::rat) ^ 52"
      by (simp only: mult.assoc)
    then have Tu: "of_int T * ?u = t" by (simp add: th)
    have "of_int T - x / ?u = (t - x) / ?u" using upos by (simp add: Tu [symmetric] field_simps)
    also have "\<dots> = (of_int v / 1801439850948198400) / ?u" by (simp add: xt)
    finally have diff: "of_int T - x / ?u = (of_int v / 1801439850948198400) / ?u" .
    have "of_int v / 1801439850948198400 * 2 ^ 54 < x"
      using vr by (simp add: x_def c015_value)
    also have "x < ?u * 2 ^ 53" by (rule ul(2))
    finally have "of_int v / 1801439850948198400 < ?u / 2" by simp
    then have "(of_int v / 1801439850948198400) / ?u < 1 / 2"
      using upos by (simp add: field_simps)
    moreover have "0 \<le> (of_int v / 1801439850948198400 :: rat) / ?u"
      using upos vr by simp
    ultimately have "\<bar>of_int T - x / ?u\<bar> < 1 / 2" by (simp add: diff)
    then have "round_even (x / ?u) = T" by (rule round_even_eqI)
    then have "fl x = t" by (simp add: fl_ge1 [OF x1] Tu)
    then show ?thesis by (simp add: th)
  qed
  from lower upper have "\<lfloor>fl x + 1 / 2\<rfloor> = k" by (rule floor_unique)
  with exact show ?thesis by (simp add: x_def)
qed

lemma whole_sum:
  assumes "0 \<le> n" and "n < 2 ^ 52"
  shows "plus_double 200 (of_int n) = 200 + of_int n"
proof -
  have "fl (of_int (200 + n)) = of_int (200 + n)"
    using assms by (intro fl_of_int) simp_all
  then show ?thesis by (simp add: plus_double_def)
qed

lemma product_bound:
  assumes "5000 < v" and "v \<le> 10 ^ 15"
  shows "0 \<le> \<lfloor>fl (v * c015) + 1 / 2\<rfloor>" and "\<lfloor>fl (v * c015) + 1 / 2\<rfloor> < 2 ^ 52"
proof -
  define x where "x = v * c015"
  have xb: "74 < x" "x \<le> 15000000000000" using assms by (simp_all add: x_def c015_value)
  then have x1: "1 \<le> x" by simp
  note near = fl_near [OF x1]
  have "x / 2 ^ 53 < 1" using xb by simp
  with near xb have b: "0 \<le> fl x + 1 / 2" "fl x + 1 / 2 < 4503599627370496" by linarith+
  from b(1) have "0 \<le> \<lfloor>fl x + 1 / 2\<rfloor>" by simp
  then show "0 \<le> \<lfloor>fl (v * c015) + 1 / 2\<rfloor>" by (simp only: x_def)
  from b(2) have "\<lfloor>fl x + 1 / 2\<rfloor> < 4503599627370496" by (simp add: floor_less_iff)
  then show "\<lfloor>fl (v * c015) + 1 / 2\<rfloor> < 2 ^ 52" by (simp add: x_def)
qed


lemma v_frac_double: "fl v_frac = v_frac"
proof -
  have "fl v_frac = of_int 4709574805640533 * 2 powi (int 13 - 52)"
    by (rule fl_eqI) (simp_all add: v_frac_def power_int_def power_one_over)
  then show ?thesis by (simp add: v_frac_def power_int_def power_one_over)
qed

lemma v_frac_product: "times_double v_frac c015 = 257 / 2"
proof -
  have "fl (v_frac * c015) = of_int 4521191813414912 * 2 powi (int 7 - 52)"
    by (rule fl_eqI) (simp_all add: v_frac_def c015_value power_int_def power_one_over)
  then show ?thesis by (simp add: times_double_def power_int_def power_one_over)
qed

lemma v_frac_exact: "round (v_frac * (15 / 1000)) = 128"
  by (simp add: round_def v_frac_def floor_eq_iff)

lemma big_product: "times_double (10 ^ 20) c015 = 1500000000000000000"
proof -
  have "fl (10 ^ 20 * c015) = of_int 5859375000000000 * 2 powi (int 60 - 52)"
    by (rule fl_eqI) (simp_all add: c015_value power_int_def power_one_over)
  then show ?thesis by (simp add: times_double_def power_int_def power_one_over)
qed

lemma big_sum: "plus_double 200 1500000000000000000 = 1500000000000000256"
proof -
  have "fl (200 + 1500000000000000000) = of_int 5859375000000001 * 2 powi (int 60 - 52)"
    by (rule fl_eqI) (simp_all add: power_int_def power_one_over)
  then show ?thesis by (simp add: plus_double_def power_int_def power_one_over)
qed


section \<open>The fee engine and the credentials of a new package\<close>

lemma calcFees_fields:
  "base (calcFees v) = 200"
  "protectionFee (calcFees v) = (if v > 5000 then Math_round (times_double v c015) else 0)"
  "total_fee (calcFees v) = plus_double (base (calcFees v)) (protectionFee (calcFees v))"
  "isHighValue (calcFees v) = (v > 10000)"
  by (simp_all add: calcFees_def Let_def)

lemma calcFees_total_exact:
  assumes "v \<le> 10 ^ 15"
  shows "total_fee (calcFees v) = base (calcFees v) + protectionFee (calcFees v)"
proof (cases "5000 < v")
  case True
  note b = product_bound [OF True assms]
  have "plus_double 200 (of_int \<lfloor>fl (v * c015) + 1 / 2\<rfloor>) = 200 + of_int \<lfloor>fl (v * c015) + 1 / 2\<rfloor>"
    using b by (rule whole_sum)
  with True show ?thesis
    by (simp add: calcFees_fields Math_round_def times_double_def)
next
  case False
  have "plus_double 200 (of_int 0) = 200 + of_int 0" by (rule whole_sum) simp_all
  with False show ?thesis by (simp add: calcFees_fields)
qed

lemma calcFees_whole:
  assumes "v \<in> \<int>" and "v \<le> 10 ^ 15"
  shows "protectionFee (calcFees v) = (if v > 5000 then of_int (round (v * 0.015)) else 0)"
proof (cases "5000 < v")
  case True
  from assms(1) obtain i where i: "v = of_int i" by (rule Ints_cases)
  have "(of_int 5000 :: rat) < of_int i" using True i by simp
  then have i1: "5000 < i" by (simp only: of_int_less_iff)
  have "(of_int i :: rat) \<le> of_int (10 ^ 15)" using assms(2) i by simp
  then have i2: "i \<le> 10 ^ 15" by (simp only: of_int_le_iff)
  from whole_product [OF i1 i2] True show ?thesis
    by (simp add: calcFees_fields Math_round_def times_double_def round_def i)
next
  case False
  then show ?thesis by (simp add: calcFees_fields)
qed

lemma calcFees_15000:
  "calcFees 15000 = \<lparr>base = 200, protectionFee = 225, total_fee = 425, isHighValue = True\<rparr>"
proof -
  have z: "(15000::rat) \<in> \<int>" by simp
  have b: "(15000::rat) \<le> 10 ^ 15" by simp
  have r: "round (15000 * 0.015 :: rat) = 225" by (simp add: round_def floor_eq_iff)
  from calcFees_whole [OF z b] calcFees_total_exact [OF b] r calcFees_fields(1,4) [of 15000]
  show ?thesis by (cases "calcFees 15000") simp
qed

lemma calcFees_3000:
  "calcFees 3000 = \<lparr>base = 200, protectionFee = 0, total_fee = 200, isHighValue = False\<rparr>"
proof -
  have z: "(3000::rat) \<in> \<int>" by simp
  have b: "(3000::rat) \<le> 10 ^ 15" by simp
  from calcFees_whole [OF z b] calcFees_total_exact [OF b] calcFees_fields(1,4) [of 3000]
  show ?thesis by (cases "calcFees 3000") simp
qed

text \<open>
  Claim C5, as amended. For every non-negative declared value \<open>v\<close>, \<open>calcFees\<close> returns
  the base fee 200, the protection fee \<^verbatim>\<open>Math.round\<close> of the double product of \<open>v\<close> and
  \<^verbatim>\<open>0.015\<close> when \<open>v > 5000\<close> and 0 otherwise, the total as the double sum of the two, and
  the high-value flag \<open>v > 10000\<close>. For \<open>v\<close> up to \<open>10 ^ 15\<close> the total is exactly the
  base fee plus the protection fee, and for a whole number \<open>v\<close> up to \<open>10 ^ 15\<close> the
  protection fee is exactly \<open>v * 0.015\<close> rounded to the nearest integer; for 15000 the
  result is 225, 425 and true, for 3000 it is 0, 200 and false.
\<close>

theorem calcFees_spec:
  "0 \<le> v \<Longrightarrow>
     base (calcFees v) = 200
     \<and> protectionFee (calcFees v) = (if v > 5000 then Math_round (times_double v c015) else 0)
     \<and> total_fee (calcFees v) = plus_double (base (calcFees v)) (protectionFee (calcFees v))
     \<and> isHighValue (calcFees v) = (v > 10000)
     \<and> (v \<le> 10 ^ 15 \<longrightarrow> total_fee (calcFees v) = base (calcFees v) + protectionFee (calcFees v))
     \<and> (v \<in> \<int> \<and> v \<le> 10 ^ 15 \<longrightarrow>
          protectionFee (calcFees v) = (if v > 5000 then of_int (round (v * 0.015)) else 0))
     \<and> calcFees 15000 = \<lparr>base = 200, protectionFee = 225, total_fee = 425, isHighValue = True\<rparr>
     \<and> calcFees 3000 = \<lparr>base = 200, protectionFee = 0, total_fee = 200, isHighValue = False\<rparr>"
  using calcFees_fields [of v] calcFees_total_exact [of v] calcFees_whole [of v]
    calcFees_15000 calcFees_3000
  by (intro conjI impI) (assumption | elim conjE | simp only:)+

theorem calcFees_spec_witness:
  "(0::number) \<le> 8500 \<and> (8500::number) \<in> \<int> \<and> (8500::number) \<le> 10 ^ 15
   \<and> calcFees 8500 = \<lparr>base = 200, protectionFee = 128, total_fee = 328, isHighValue = False\<rparr>"
proof -
  have h: "(0::number) \<le> 8500" by simp
  have z: "(8500::number) \<in> \<int>" by simp
  have b: "(8500::number) \<le> 10 ^ 15" by simp
  have r: "round (8500 * 0.015 :: number) = 128" by (simp add: round_def floor_eq_iff)
  note t = calcFees_spec [OF h]
  have f: "base (calcFees 8500) = 200" "isHighValue (calcFees 8500) = False"
    using t by simp_all
  have p: "protectionFee (calcFees 8500) = 128"
    using t z b r by simp
  have "total_fee (calcFees 8500) = base (calcFees 8500) + protectionFee (calcFees 8500)"
    using t b by blast
  with f p have "total_fee (calcFees 8500) = 328" by simp
  with f p have "calcFees 8500 =
      \<lparr>base = 200, protectionFee = 128, total_fee = 328, isHighValue = False\<rparr>"
    by (cases "calcFees 8500") simp
  with h z b show ?thesis by (intro conjI)
qed


text \<open>
  Claim C5 as stated, with the protection fee \<open>v * 0.015\<close> rounded to the nearest integer
  for every \<open>v\<close>, fails at the double \<^verbatim>\<open>8566.666666666666\<close>: the exact product is below
  128.5 and rounds to 128, the double product is 128.5, and \<open>calcFees\<close> returns the
  protection fee 129 and the total 329.
\<close>

theorem calcFees_fraction_counterexample:
  "0 \<le> v_frac \<and> fl v_frac = v_frac \<and> 5000 < v_frac
   \<and> round (v_frac * 0.015) = 128
   \<and> protectionFee (calcFees v_frac) = 129
   \<and> total_fee (calcFees v_frac) = 329"
proof -
  have a: "0 \<le> v_frac" "5000 < v_frac" by (simp_all add: v_frac_def)
  have r: "round (v_frac * 0.015) = 128" using v_frac_exact by simp
  have p: "protectionFee (calcFees v_frac) = 129"
    using a(2) by (simp add: calcFees_fields v_frac_product Math_round_def)
  have "plus_double 200 (of_int 129) = 200 + of_int 129" by (rule whole_sum) simp_all
  then have t: "total_fee (calcFees v_frac) = 329"
    by (simp add: calcFees_fields(1,3) p)
  from a(1) v_frac_double a(2) r p t show ?thesis by (intro conjI)
qed








section \<open>What every handler keeps of a package\<close>

lemma kept_refl: "kept p p"
  by (simp add: kept_def same_fees_def flags_kept_def)

lemma kept_trans: "kept p q \<Longrightarrow> kept q r \<Longrightarrow> kept p r"
  by (simp add: kept_def same_fees_def flags_kept_def)

lemma kept_step: "step now s x = Inr s' \<Longrightarrow> list_all2 kept (packages s) (packages s')"
  by (cases x)
     (auto simp: onAcceptCollection_def onMarkAtWarehouse_def onAcceptDelivery_def onDispatch_def
        onVerifyOTP_def onMarkDelivered_def packages_updatePkg spread_def kept_def same_fees_def
        flags_kept_def Let_def
        intro!: list_all2_map_self split: option.splits if_splits)

lemma kept_exec: "list_all2 kept (packages s) (packages (exec now s x))"
proof (cases "step now s x")
  case (Inl e)
  then show ?thesis by (simp add: exec_def list_all2_same kept_refl)
next
  case (Inr s')
  then show ?thesis using kept_step [OF Inr] by (simp add: exec_def)
qed

lemma kept_step_db: "list_all2 kept (packages s) (packages (step_db e s x))"
  by (cases x)
     (auto simp: onAcceptCollection_db_def onMarkAtWarehouse_db_def onAcceptDelivery_db_def
        onDispatch_db_def onVerifyOTP_db_def onMarkDelivered_db_def packages_updatePkg_db
        spread_def kept_def same_fees_def flags_kept_def Let_def
        intro!: list_all2_map_self)

lemma kept_run: "list_all2 kept (packages s) (packages (run s xs))"
proof (induction xs arbitrary: s)
  case Nil
  show ?case by (simp add: list_all2_same kept_refl)
next
  case (Cons a xs)
  obtain now x where a: "a = (now, x)" by (cases a)
  have "list_all2 kept (packages s) (packages (exec now s x))" by (rule kept_exec)
  moreover have "list_all2 kept (packages (exec now s x)) (packages (run (exec now s x) xs))"
    by (rule Cons.IH)
  ultimately show ?case
    unfolding a run.simps by (rule list_all2_trans [rotated 1]) (rule kept_trans)
qed

lemma kept_run_db: "list_all2 kept (packages s) (packages (run_db s xs))"
proof (induction xs arbitrary: s)
  case Nil
  show ?case by (simp add: list_all2_same kept_refl)
next
  case (Cons a xs)
  obtain e x where a: "a = (e, x)" by (cases a)
  have "list_all2 kept (packages s) (packages (step_db e s x))" by (rule kept_step_db)
  moreover have "list_all2 kept (packages (step_db e s x)) (packages (run_db (step_db e s x) xs))"
    by (rule Cons.IH)
  ultimately show ?case
    unfolding a run_db.simps by (rule list_all2_trans [rotated 1]) (rule kept_trans)
qed

lemma same_fees_invariant:
  assumes "list_all2 same_fees ps ps'" and "\<forall>p\<in>set ps. fee_invariant p"
  shows "\<forall>p\<in>set ps'. fee_invariant p"
  using assms
  by (induction rule: list_all2_induct) (auto simp: same_fees_def fee_invariant_def)

lemma fee_invariant_created:
  assumes "orZero (form_declaredValue f) \<le> 10 ^ 15"
  shows "fee_invariant (snd (onCreatePackage usr now suffix u1 u2 s f))"
  using calcFees_total_exact [OF assms]
  by (simp add: onCreatePackage_def Let_def fee_invariant_def)

lemma total_created:
  "total_fee (snd (onCreatePackage usr now suffix u1 u2 s f)) =
     plus_double (base (snd (onCreatePackage usr now suffix u1 u2 s f)))
       (protectionFee (snd (onCreatePackage usr now suffix u1 u2 s f)))"
  by (simp add: onCreatePackage_def Let_def calcFees_fields(3))

lemma initial_fee_invariant: "\<forall>p\<in>set (packages (initial_state t0)). fee_invariant p"
  by (simp add: initial_state_def initialPackages_def fee_invariant_def)

text \<open>
  Claim C7, as amended. The total fee of a package that \<open>onCreatePackage\<close> makes is the
  double sum of its base fee and its protection fee, which for a declared value up to
  \<open>10 ^ 15\<close> is exactly the base fee plus the protection fee. No sequence of calls of the
  six handlers, of the in-memory App or of the Supabase App, changes the base fee, the
  protection fee or the total of any package; so the invariant holds after the calls when
  it held before.
\<close>

theorem fees_preserved:
  "(orZero (form_declaredValue f) \<le> 10 ^ 15 \<longrightarrow>
      fee_invariant (snd (onCreatePackage usr now suffix u1 u2 s0 f)))
   \<and> total_fee (snd (onCreatePackage usr now suffix u1 u2 s0 f)) =
       plus_double (base (snd (onCreatePackage usr now suffix u1 u2 s0 f)))
         (protectionFee (snd (onCreatePackage usr now suffix u1 u2 s0 f)))
   \<and> list_all2 same_fees (packages s) (packages (run s xs))
   \<and> list_all2 same_fees (packages s) (packages (run_db s ys))
   \<and> ((\<forall>p\<in>set (packages s). fee_invariant p) \<longrightarrow>
        (\<forall>p\<in>set (packages (run s xs)). fee_invariant p)
        \<and> (\<forall>p\<in>set (packages (run_db s ys)). fee_invariant p))"
proof -
  have a: "list_all2 same_fees (packages s) (packages (run s xs))"
    by (rule list_all2_mono [OF kept_run]) (simp add: kept_def)
  have b: "list_all2 same_fees (packages s) (packages (run_db s ys))"
    by (rule list_all2_mono [OF kept_run_db]) (simp add: kept_def)
  show ?thesis
    using a b fee_invariant_created [of f usr now suffix u1 u2 s0]
      total_created [of usr now suffix u1 u2 s0 f]
      same_fees_invariant [OF a] same_fees_invariant [OF b]
    by blast
qed

theorem fees_preserved_witness:
  "orZero (form_declaredValue (booking 3000)) \<le> 10 ^ 15
   \<and> fee_invariant (snd booked)
   \<and> list_all fee_invariant (packages (initial_state 0))
   \<and> list_all fee_invariant (packages (run (initial_state 0) example_ops))"
proof -
  have v: "orZero (form_declaredValue (booking 3000)) \<le> 10 ^ 15"
    by (simp add: orZero_def booking_def)
  have h: "\<forall>p\<in>set (packages (initial_state 0)). fee_invariant p"
    by (rule initial_fee_invariant)
  note t = fees_preserved [of "booking 3000" customer 7 "''AB12CD''" "1 / 3" "1 / 2"
      "initial_state 0" "initial_state 0" example_ops "[]"]
  from t [THEN conjunct1, THEN mp, OF v] have c: "fee_invariant (snd booked)"
    by (simp only: booked_def)
  from t [THEN conjunct2, THEN conjunct2, THEN conjunct2, THEN conjunct2, THEN mp, OF h]
  have "\<forall>p\<in>set (packages (run (initial_state 0) example_ops)). fee_invariant p"
    by (rule conjunct1)
  with h have "list_all fee_invariant (packages (initial_state 0))"
    "list_all fee_invariant (packages (run (initial_state 0) example_ops))"
    by (simp_all only: list_all_iff)
  with v c show ?thesis by (intro conjI)
qed

text \<open>
  Claim C7 as stated, for every package, fails at creation with the declared value
  \<open>10 ^ 20\<close>: the protection fee is 1500000000000000000, and the double nearest to it plus
  200 is 1500000000000000256, which \<open>onCreatePackage\<close> stores as the total.
\<close>

theorem fee_invariant_big_counterexample:
  "orZero (form_declaredValue (booking (10 ^ 20))) = 10 ^ 20
   \<and> base (snd booked_big) = 200
   \<and> protectionFee (snd booked_big) = 1500000000000000000
   \<and> total_fee (snd booked_big) = 1500000000000000256
   \<and> \<not> fee_invariant (snd booked_big)"
proof -
  have v: "orZero (form_declaredValue (booking (10 ^ 20))) = 10 ^ 20"
    by (simp add: orZero_def booking_def)
  have v': "orZero (form_declaredValue (booking 100000000000000000000)) = 100000000000000000000"
    using v by simp
  have f: "calcFees 100000000000000000000 = \<lparr>base = 200, protectionFee = 1500000000000000000,
      total_fee = 1500000000000000256, isHighValue = True\<rparr>"
  proof -
    have bp: "times_double 100000000000000000000 c015 = 1500000000000000000"
      using big_product by simp
    have fr: "\<lfloor>3000000000000000001 / 2 :: rat\<rfloor> = 1500000000000000000"
      by (simp add: floor_eq_iff)
    show ?thesis by (simp add: calcFees_def Let_def bp fr big_sum Math_round_def)
  qed
  have b: "base (snd booked_big) = 200"
    and p: "protectionFee (snd booked_big) = 1500000000000000000"
    and t: "total_fee (snd booked_big) = 1500000000000000256"
    by (simp_all add: booked_big_def onCreatePackage_def Let_def v' f)
  from b p t have "\<not> fee_invariant (snd booked_big)" by (simp add: fee_invariant_def)
  with v b p t show ?thesis by (intro conjI)
qed

text \<open>
  Claim C8. No sequence of calls of the six handlers, of either App, resets a verified
  flag: a package whose \<open>otpWarehouseVerified\<close> or \<open>otpDeliveryVerified\<close> is true keeps it
  true, so each flag goes from false to true at most once.
\<close>

theorem flags_monotone:
  "list_all2 flags_kept (packages s) (packages (run s xs))
   \<and> list_all2 flags_kept (packages s) (packages (run_db s ys))"
proof
  show "list_all2 flags_kept (packages s) (packages (run s xs))"
    by (rule list_all2_mono [OF kept_run]) (simp add: kept_def)
  show "list_all2 flags_kept (packages s) (packages (run_db s ys))"
    by (rule list_all2_mono [OF kept_run_db]) (simp add: kept_def)
qed


theorem flags_monotone_witness:
  "otpWarehouseVerified (packages (initial_state 0) ! 0)
   \<and> otpWarehouseVerified (packages (run (initial_state 0) example_ops) ! 0)"
proof -
  have h: "otpWarehouseVerified (packages (initial_state 0) ! 0)"
    by (simp add: initial_state_def initialPackages_def)
  have n: "0 < length (packages (initial_state 0))"
    by (simp add: initial_state_def initialPackages_def)
  have "list_all2 flags_kept (packages (initial_state 0))
          (packages (run (initial_state 0) example_ops))"
    using flags_monotone [of "initial_state 0" example_ops "[]"] by (elim conjE)
  from list_all2_nthD [OF this n]
  have "flags_kept (packages (initial_state 0) ! 0)
          (packages (run (initial_state 0) example_ops) ! 0)" .
  with h show ?thesis by (simp add: flags_kept_def)
qed

section \<open>Dispatch\<close>

text \<open>
  Claim C9, as amended. One call of \<open>onDispatch\<close> sets \<open>riderDeliveryId\<close> of the package
  to the given rider and its status to \<open>out_for_delivery\<close>, and appends exactly two log
  entries for the package, an admin entry \<^verbatim>\<open>DISPATCHED_TO_RIDER\<close> followed by a rider
  entry \<^verbatim>\<open>OUT_FOR_DELIVERY\<close>. The Supabase App changes no other field of the package; the
  in-memory App also sets \<open>updatedAt\<close> to the time of the call, and no other field.
\<close>

theorem dispatch_effect:
  "packages (onDispatch now s pkgId riderId) =
     map (\<lambda>p. if pkg_id p = pkgId
               then p\<lparr>riderDeliveryId := Some riderId, status := out_for_delivery,
                      updatedAt := Some now\<rparr>
               else p) (packages s)
   \<and> (\<exists>e1 e2. logs (onDispatch now s pkgId riderId) = logs s @ [e1, e2]
         \<and> packageId e1 = pkgId \<and> actorRole e1 = ''admin'' \<and> event e1 = ''DISPATCHED_TO_RIDER''
         \<and> packageId e2 = pkgId \<and> actorRole e2 = ''rider'' \<and> actorId e2 = Some riderId
         \<and> event e2 = ''OUT_FOR_DELIVERY'')
   \<and> packages (onDispatch_db usr riders uuid1 uuid2 now s pkgId riderId) =
       map (\<lambda>p. if pkg_id p = pkgId
                 then p\<lparr>riderDeliveryId := Some riderId, status := out_for_delivery\<rparr>
                 else p) (packages s)
   \<and> (\<exists>e1 e2. logs (onDispatch_db usr riders uuid1 uuid2 now s pkgId riderId) = logs s @ [e1, e2]
         \<and> packageId e1 = pkgId \<and> actorRole e1 = ''admin'' \<and> event e1 = ''DISPATCHED_TO_RIDER''
         \<and> packageId e2 = pkgId \<and> actorRole e2 = ''rider'' \<and> actorId e2 = Some riderId
         \<and> event e2 = ''OUT_FOR_DELIVERY'')"
  by (simp add: onDispatch_def onDispatch_db_def Let_def packages_updatePkg packages_updatePkg_db
      spread_def mk_log_def)

text \<open>
  Claim C9 as stated, with no other package field changed, fails in the in-memory App:
  dispatching \<^verbatim>\<open>pkg-002\<close> of the initial packages at time 1000 changes its \<open>updatedAt\<close>.
\<close>

theorem dispatch_updatedAt_counterexample:
  "updatedAt (packages (initial_state 0) ! 1) = None
   \<and> updatedAt (packages (onDispatch 1000 (initial_state 0) ''pkg-002'' ''rider-04'') ! 1) = Some 1000"
  by (simp add: onDispatch_def Let_def packages_updatePkg spread_def initial_state_def
      initialPackages_def)


section \<open>Verification of a code\<close>

lemma find_pkg_002: "find_pkg (initial_state 0) ''pkg-002'' = Some (initialPackages 0 ! 1)"
  by (simp add: find_pkg_def initial_state_def initialPackages_def)

text \<open>
  Claim C10. \<open>onVerifyOTP\<close> takes a package id and a kind and no code, and compares
  nothing: on any package of the list, whatever its stored codes, the call sets the
  verified flag of the kind and appends the log entry \<^verbatim>\<open>OTP_WAREHOUSE_VERIFIED\<close> or
  \<^verbatim>\<open>OTP_DELIVERY_VERIFIED\<close>, in both Apps. The comparison of the typed code with the
  stored one is made by \<open>handleOTPVerify\<close> of the rider screen, which calls
  \<open>onVerifyOTP\<close> only when they are equal.
\<close>

theorem verify_unconditional:
  assumes "find_pkg s pkgId = Some pkg"
  shows
    "(\<exists>s' e. onVerifyOTP now s pkgId ''warehouse'' = Inr s'
        \<and> packages s' =
            map (\<lambda>p. if pkg_id p = pkgId
                      then p\<lparr>otpWarehouseVerified := True, updatedAt := Some now\<rparr> else p)
              (packages s)
        \<and> logs s' = logs s @ [e] \<and> packageId e = pkgId \<and> event e = ''OTP_WAREHOUSE_VERIFIED'')
     \<and> (\<exists>s' e. onVerifyOTP now s pkgId ''delivery'' = Inr s'
        \<and> packages s' =
            map (\<lambda>p. if pkg_id p = pkgId
                      then p\<lparr>otpDeliveryVerified := True, updatedAt := Some now\<rparr> else p)
              (packages s)
        \<and> logs s' = logs s @ [e] \<and> packageId e = pkgId \<and> event e = ''OTP_DELIVERY_VERIFIED'')
     \<and> (\<exists>e. packages (onVerifyOTP_db usr uuid now s pkgId ''warehouse'') =
            map (\<lambda>p. if pkg_id p = pkgId then p\<lparr>otpWarehouseVerified := True\<rparr> else p)
              (packages s)
        \<and> logs (onVerifyOTP_db usr uuid now s pkgId ''warehouse'') = logs s @ [e]
        \<and> packageId e = pkgId \<and> event e = ''OTP_WAREHOUSE_VERIFIED'')
     \<and> (\<exists>e. packages (onVerifyOTP_db usr uuid now s pkgId ''delivery'') =
            map (\<lambda>p. if pkg_id p = pkgId then p\<lparr>otpDeliveryVerified := True\<rparr> else p)
              (packages s)
        \<and> logs (onVerifyOTP_db usr uuid now s pkgId ''delivery'') = logs s @ [e]
        \<and> packageId e = pkgId \<and> event e = ''OTP_DELIVERY_VERIFIED'')
     \<and> handleOTPVerify now s p0 type typed =
         (if Some (orEmpty typed) = (if type = ''warehouse'' then otpWarehouse p0 else otpDelivery p0)
          then map_sum id (\<lambda>s'. (s', False)) (onVerifyOTP now s (pkg_id p0) type)
          else Inr (s, True))"
proof -
  have a: "\<exists>s' e. onVerifyOTP now s pkgId ''warehouse'' = Inr s'
        \<and> packages s' =
            map (\<lambda>p. if pkg_id p = pkgId
                      then p\<lparr>otpWarehouseVerified := True, updatedAt := Some now\<rparr> else p)
              (packages s)
        \<and> logs s' = logs s @ [e] \<and> packageId e = pkgId \<and> event e = ''OTP_WAREHOUSE_VERIFIED''"
    using assms by (simp add: onVerifyOTP_def packages_updatePkg spread_def mk_log_def)
  have b: "\<exists>s' e. onVerifyOTP now s pkgId ''delivery'' = Inr s'
        \<and> packages s' =
            map (\<lambda>p. if pkg_id p = pkgId
                      then p\<lparr>otpDeliveryVerified := True, updatedAt := Some now\<rparr> else p)
              (packages s)
        \<and> logs s' = logs s @ [e] \<and> packageId e = pkgId \<and> event e = ''OTP_DELIVERY_VERIFIED''"
    using assms by (simp add: onVerifyOTP_def packages_updatePkg spread_def mk_log_def)
  have c: "\<exists>e. packages (onVerifyOTP_db usr uuid now s pkgId ''warehouse'') =
            map (\<lambda>p. if pkg_id p = pkgId then p\<lparr>otpWarehouseVerified := True\<rparr> else p)
              (packages s)
        \<and> logs (onVerifyOTP_db usr uuid now s pkgId ''warehouse'') = logs s @ [e]
        \<and> packageId e = pkgId \<and> event e = ''OTP_WAREHOUSE_VERIFIED''"
    by (simp add: onVerifyOTP_db_def packages_updatePkg_db spread_def mk_log_def)
  have d: "\<exists>e. packages (onVerifyOTP_db usr uuid now s pkgId ''delivery'') =
            map (\<lambda>p. if pkg_id p = pkgId then p\<lparr>otpDeliveryVerified := True\<rparr> else p)
              (packages s)
        \<and> logs (onVerifyOTP_db usr uuid now s pkgId ''delivery'') = logs s @ [e]
        \<and> packageId e = pkgId \<and> event e = ''OTP_DELIVERY_VERIFIED''"
    by (simp add: onVerifyOTP_db_def packages_updatePkg_db spread_def mk_log_def)
  have e: "handleOTPVerify now s p0 type typed =
         (if Some (orEmpty typed) = (if type = ''warehouse'' then otpWarehouse p0 else otpDelivery p0)
          then map_sum id (\<lambda>s'. (s', False)) (onVerifyOTP now s (pkg_id p0) type)
          else Inr (s, True))"
    by (simp add: handleOTPVerify_def Let_def split: sum.splits)
  from a b c d e show ?thesis by (intro conjI)
qed

theorem verify_unconditional_witness:
  "find_pkg (initial_state 0) ''pkg-002'' = Some (initialPackages 0 ! 1)
   \<and> otpWarehouse (initialPackages 0 ! 1) = Some ''5512''
   \<and> \<not> otpWarehouseVerified (initialPackages 0 ! 1)
   \<and> (\<exists>s'. onVerifyOTP 9 (initial_state 0) ''pkg-002'' ''warehouse'' = Inr s'
         \<and> otpWarehouseVerified (packages s' ! 1) \<and> length (logs s') = 8)"
proof -
  have h: "find_pkg (initial_state 0) ''pkg-002'' = Some (initialPackages 0 ! 1)"
    by (rule find_pkg_002)
  have i: "otpWarehouse (initialPackages 0 ! 1) = Some ''5512''"
    "\<not> otpWarehouseVerified (initialPackages 0 ! 1)"
    by (simp_all add: initialPackages_def)
  from verify_unconditional [OF h, of 9]
  obtain s' e where r: "onVerifyOTP 9 (initial_state 0) ''pkg-002'' ''warehouse'' = Inr s'"
    and ps: "packages s' =
      map (\<lambda>p. if pkg_id p = ''pkg-002''
                then p\<lparr>otpWarehouseVerified := True, updatedAt := Some 9\<rparr> else p)
        (packages (initial_state 0))"
    and ls: "logs s' = logs (initial_state 0) @ [e]"
    by blast
  have "otpWarehouseVerified (packages s' ! 1)"
    unfolding ps by (simp add: initial_state_def initialPackages_def)
  moreover have "length (logs s') = 8"
    unfolding ls by (simp add: initial_state_def initialLogs_def)
  ultimately show ?thesis using h i r by blast
qed

text \<open>
  Claim C4. When the typed code is not the stored code of the requested kind,
  \<open>handleOTPVerify\<close> returns the state it was given, packages and logs, and only sets the
  error flag of the card; so a click on Verify with a wrong code leaves the state as it
  was.
\<close>

theorem wrong_code_no_effect:
  "(Some (orEmpty typed) \<noteq> (if type = ''warehouse'' then otpWarehouse pkg else otpDelivery pkg)
      \<longrightarrow> handleOTPVerify now s pkg type typed = Inr (s, True))
   \<and> (Some (orEmpty typed) \<noteq> otpWarehouse pkg \<longrightarrow>
        ui_step now s (Click_VerifyWarehouse rider pkg typed) =
          (if card_shown rider s pkg \<and> needsWarehouseOTP rider pkg then Done s else NotOffered))
   \<and> (Some (orEmpty typed) \<noteq> otpDelivery pkg \<longrightarrow>
        ui_step now s (Click_VerifyDelivery rider pkg typed) =
          (if card_shown rider s pkg \<and> needsDeliveryOTP rider pkg then Done s else NotOffered))"
  by (simp add: handleOTPVerify_def Let_def of_result_def)

theorem wrong_code_no_effect_witness:
  "Some (orEmpty (Some ''0000'')) \<noteq> otpWarehouse (initialPackages 0 ! 1)
   \<and> handleOTPVerify 9 (initial_state 0) (initialPackages 0 ! 1) ''warehouse'' (Some ''0000'')
       = Inr (initial_state 0, True)
   \<and> ui_step 9 (initial_state 0) (Click_VerifyWarehouse rider02 (initialPackages 0 ! 1) (Some ''0000''))
       = Done (initial_state 0)"
proof -
  have h: "Some (orEmpty (Some ''0000'')) \<noteq> otpWarehouse (initialPackages 0 ! 1)"
    by (simp add: orEmpty_def initialPackages_def)
  have h': "Some (orEmpty (Some ''0000'')) \<noteq>
      (if ''warehouse'' = ''warehouse'' then otpWarehouse (initialPackages 0 ! 1)
       else otpDelivery (initialPackages 0 ! 1))"
    using h by simp
  have g: "card_shown rider02 (initial_state 0) (initialPackages 0 ! 1)
           \<and> needsWarehouseOTP rider02 (initialPackages 0 ! 1)"
    by (simp add: card_shown_def needsWarehouseOTP_def myActive_def isMyCollection_def
        initial_state_def initialPackages_def rider02_def)
  note t = wrong_code_no_effect [of "Some ''0000''" "''warehouse''" "initialPackages 0 ! 1" 9
      "initial_state 0" rider02]
  note a = t [THEN conjunct1, THEN mp, OF h']
  note b = t [THEN conjunct2, THEN conjunct1, THEN mp, OF h]
  have c: "ui_step 9 (initial_state 0)
      (Click_VerifyWarehouse rider02 (initialPackages 0 ! 1) (Some ''0000'')) = Done (initial_state 0)"
    by (simp only: b g simp_thms if_True)
  from h a c show ?thesis by (intro conjI)
qed


section \<open>What a click keeps of a package\<close>

lemma card_shown_mem: "card_shown rider s pkg \<Longrightarrow> pkg \<in> set (packages s)"
  by (auto simp: card_shown_def collectionFeed_def myActive_def deliveryFeed_def)

lemma same_id_same_pkg:
  assumes "distinct_ids s" and "p \<in> set (packages s)" and "q \<in> set (packages s)"
    and "pkg_id p = pkg_id q"
  shows "p = q"
proof -
  from assms(1) have "inj_on pkg_id (set (packages s))"
    by (simp add: distinct_ids_def distinct_map)
  with assms(2-4) show ?thesis by (auto dest: inj_onD)
qed

lemma ui_kept_refl: "ui_kept p p"
  by (simp add: ui_kept_def stays_or_advances_def)

lemma stays_or_advances_trans:
  "stays_or_advances a b \<Longrightarrow> stays_or_advances b c \<Longrightarrow> stays_or_advances a c"
  by (auto simp: stays_or_advances_def)

lemma stays_or_advances_searching:
  "stays_or_advances a b \<Longrightarrow> a \<noteq> searching_rider \<Longrightarrow> b \<noteq> searching_rider"
  by (cases a; cases b) (auto simp: stays_or_advances_def)

lemma ui_kept_trans: "ui_kept p q \<Longrightarrow> ui_kept q r \<Longrightarrow> ui_kept p r"
  unfolding ui_kept_def
  using stays_or_advances_trans stays_or_advances_searching by metis

lemma ui_kept_update:
  assumes "distinct_ids s" and "pkg \<in> set (packages s)" and "ui_kept pkg (f pkg)"
  shows "list_all2 ui_kept (packages s)
           (map (\<lambda>p. if pkg_id p = pkg_id pkg then f p else p) (packages s))"
proof (rule list_all2_map_self)
  fix x assume x: "x \<in> set (packages s)"
  show "ui_kept x (if pkg_id x = pkg_id pkg then f x else x)"
  proof (cases "pkg_id x = pkg_id pkg")
    case True
    with assms(1,2) x have "x = pkg" by (simp add: same_id_same_pkg)
    with True assms(3) show ?thesis by simp
  next
    case False
    then show ?thesis by (simp add: ui_kept_refl)
  qed
qed

lemma ui_kept_onVerifyOTP:
  assumes "distinct_ids s" and "pkg \<in> set (packages s)"
    and "onVerifyOTP now s (pkg_id pkg) type = Inr s'"
  shows "list_all2 ui_kept (packages s) (packages s')"
proof -
  from assms(3) have
    "packages s' =
       map (\<lambda>p. if pkg_id p = pkg_id pkg
                 then (if type = ''warehouse''
                       then p\<lparr>otpWarehouseVerified := True, updatedAt := Some now\<rparr>
                       else p\<lparr>otpDeliveryVerified := True, updatedAt := Some now\<rparr>)
                 else p) (packages s)"
    by (auto simp: onVerifyOTP_def packages_updatePkg spread_def split: option.splits if_splits)
  moreover have "ui_kept pkg (if type = ''warehouse''
      then pkg\<lparr>otpWarehouseVerified := True, updatedAt := Some now\<rparr>
      else pkg\<lparr>otpDeliveryVerified := True, updatedAt := Some now\<rparr>)"
    by (simp add: ui_kept_def stays_or_advances_def)
  ultimately show ?thesis
    using ui_kept_update [OF assms(1,2), of "\<lambda>p. if type = ''warehouse''
      then p\<lparr>otpWarehouseVerified := True, updatedAt := Some now\<rparr>
      else p\<lparr>otpDeliveryVerified := True, updatedAt := Some now\<rparr>"]
    by (simp only:)
qed

lemma ui_kept_handleOTPVerify:
  assumes "distinct_ids s" and "pkg \<in> set (packages s)"
    and "handleOTPVerify now s pkg type typed = Inr (s', flag)"
  shows "list_all2 ui_kept (packages s) (packages s')"
proof (cases "Some (orEmpty typed) = (if type = ''warehouse'' then otpWarehouse pkg else otpDelivery pkg)")
  case True
  with assms(3) have "onVerifyOTP now s (pkg_id pkg) type = Inr s'"
    by (auto simp: handleOTPVerify_def Let_def split: sum.splits)
  with assms(1,2) show ?thesis by (rule ui_kept_onVerifyOTP)
next
  case False
  with assms(3) have "s' = s" by (simp add: handleOTPVerify_def Let_def)
  then show ?thesis by (simp add: list_all2_same ui_kept_refl)
qed

lemma ui_step_kept:
  assumes d: "distinct_ids s" and r: "ui_step now s c = Done s'"
  shows "list_all2 ui_kept (packages s) (packages s')"
proof (cases c)
  case (Click_AcceptCollection rider pkg)
  let ?f = "\<lambda>p. p\<lparr>riderCollectionId := Some (user_id rider), status := picked_up,
      updatedAt := Some now\<rparr>"
  from Click_AcceptCollection r have c: "card_shown rider s pkg" "status pkg = searching_rider"
    and s': "s' = onAcceptCollection now s (pkg_id pkg) (user_id rider)"
    by (auto split: if_splits)
  have ps: "packages s' = map (\<lambda>p. if pkg_id p = pkg_id pkg then ?f p else p) (packages s)"
    by (simp add: s' onAcceptCollection_def packages_updatePkg spread_def)
  have "ui_kept pkg (?f pkg)"
    using c(2) by (simp add: ui_kept_def stays_or_advances_def)
  from ui_kept_update [OF d card_shown_mem [OF c(1)], of ?f, OF this]
  show ?thesis unfolding ps .
next
  case (Click_MarkAtWarehouse rider pkg)
  let ?f = "\<lambda>p. p\<lparr>status := at_warehouse, updatedAt := Some now\<rparr>"
  from Click_MarkAtWarehouse r have c: "card_shown rider s pkg" "status pkg = searching_rider"
    and s': "s' = onMarkAtWarehouse now s (pkg_id pkg) (user_id rider)"
    by (auto split: if_splits)
  have ps: "packages s' = map (\<lambda>p. if pkg_id p = pkg_id pkg then ?f p else p) (packages s)"
    by (simp add: s' onMarkAtWarehouse_def packages_updatePkg spread_def)
  have "ui_kept pkg (?f pkg)"
    using c(2) by (simp add: ui_kept_def stays_or_advances_def)
  from ui_kept_update [OF d card_shown_mem [OF c(1)], of ?f, OF this]
  show ?thesis unfolding ps .
next
  case (Click_VerifyWarehouse rider pkg typed)
  with r have c: "card_shown rider s pkg"
    and h: "of_result (map_sum id fst (handleOTPVerify now s pkg ''warehouse'' typed)) = Done s'"
    by (auto split: if_splits)
  from h obtain flag where "handleOTPVerify now s pkg ''warehouse'' typed = Inr (s', flag)"
    by (cases "handleOTPVerify now s pkg ''warehouse'' typed") (auto simp: of_result_def)
  with d card_shown_mem [OF c] show ?thesis by (rule ui_kept_handleOTPVerify)
next
  case (Click_AcceptDelivery rider pkg)
  let ?f = "\<lambda>p. p\<lparr>riderDeliveryId := Some (user_id rider), updatedAt := Some now\<rparr>"
  from Click_AcceptDelivery r have c: "card_shown rider s pkg" "status pkg = at_warehouse"
    and s': "s' = onAcceptDelivery now s (pkg_id pkg) (user_id rider)"
    by (auto split: if_splits)
  have ps: "packages s' = map (\<lambda>p. if pkg_id p = pkg_id pkg then ?f p else p) (packages s)"
    by (simp add: s' onAcceptDelivery_def packages_updatePkg spread_def)
  have "ui_kept pkg (?f pkg)"
    by (simp add: ui_kept_def stays_or_advances_def)
  from ui_kept_update [OF d card_shown_mem [OF c(1)], of ?f, OF this]
  show ?thesis unfolding ps .
next
  case (Click_VerifyDelivery rider pkg typed)
  with r have c: "card_shown rider s pkg"
    and h: "of_result (map_sum id fst (handleOTPVerify now s pkg ''delivery'' typed)) = Done s'"
    by (auto split: if_splits)
  from h obtain flag where "handleOTPVerify now s pkg ''delivery'' typed = Inr (s', flag)"
    by (cases "handleOTPVerify now s pkg ''delivery'' typed") (auto simp: of_result_def)
  with d card_shown_mem [OF c] show ?thesis by (rule ui_kept_handleOTPVerify)
next
  case (Click_MarkDelivered rider pkg)
  let ?f = "\<lambda>p. p\<lparr>status := delivered, updatedAt := Some now\<rparr>"
  from Click_MarkDelivered r have c: "card_shown rider s pkg" "status pkg = out_for_delivery"
    and s': "s' = onMarkDelivered now s (pkg_id pkg) (user_id rider)"
    by (auto split: if_splits)
  have ps: "packages s' = map (\<lambda>p. if pkg_id p = pkg_id pkg then ?f p else p) (packages s)"
    by (simp add: s' onMarkDelivered_def packages_updatePkg spread_def)
  have "ui_kept pkg (?f pkg)"
    using c(2) by (simp add: ui_kept_def stays_or_advances_def)
  from ui_kept_update [OF d card_shown_mem [OF c(1)], of ?f, OF this]
  show ?thesis unfolding ps .
next
  case (Click_Dispatch pkg selectedRider)
  let ?f = "\<lambda>p. p\<lparr>riderDeliveryId := Some selectedRider, status := out_for_delivery,
      updatedAt := Some now\<rparr>"
  from Click_Dispatch r have c: "pkg \<in> set (packages s)" "status pkg = at_warehouse"
    and s': "s' = onDispatch now s (pkg_id pkg) selectedRider"
    by (auto split: if_splits)
  have ps: "packages s' = map (\<lambda>p. if pkg_id p = pkg_id pkg then ?f p else p) (packages s)"
    by (simp add: s' onDispatch_def Let_def packages_updatePkg spread_def)
  have "ui_kept pkg (?f pkg)"
    using c(2) by (simp add: ui_kept_def stays_or_advances_def)
  from ui_kept_update [OF d c(1), of ?f, OF this]
  show ?thesis unfolding ps .
qed

lemma ui_kept_ids: "list_all2 ui_kept ps ps' \<Longrightarrow> map pkg_id ps' = map pkg_id ps"
  by (induction rule: list_all2_induct) (simp_all add: ui_kept_def)

lemma ui_run_kept:
  "distinct_ids s \<Longrightarrow> ui_run s cs = Some s' \<Longrightarrow> list_all2 ui_kept (packages s) (packages s')"
proof (induction cs arbitrary: s)
  case Nil
  then show ?case by (simp add: list_all2_same ui_kept_refl)
next
  case (Cons a cs)
  obtain now c where a: "a = (now, c)" by (cases a)
  from Cons.prems(2) obtain s1 where s1: "ui_step now s c = Done s1"
    and rest: "ui_run s1 cs = Some s'"
    unfolding a by (auto split: outcome.splits)
  have k: "list_all2 ui_kept (packages s) (packages s1)"
    using Cons.prems(1) s1 by (rule ui_step_kept)
  then have "distinct_ids s1"
    using Cons.prems(1) by (simp add: distinct_ids_def ui_kept_ids)
  then have "list_all2 ui_kept (packages s1) (packages s')"
    using rest by (rule Cons.IH)
  with k show ?case by (rule list_all2_trans [rotated 1]) (rule ui_kept_trans)
qed


section \<open>The order of the statuses\<close>

lemma stays_not_backward: "stays_or_advances a b \<Longrightarrow> \<not> moves_backward a b"
  by (auto simp: stays_or_advances_def moves_backward_def)

lemma packages_dispatched:
  "packages dispatched =
     map (\<lambda>p. if pkg_id p = ''pkg-002''
               then p\<lparr>riderDeliveryId := Some ''rider-04'', status := out_for_delivery,
                      updatedAt := Some 1\<rparr>
               else p) (initialPackages 0)"
  by (simp add: dispatched_def onDispatch_def Let_def packages_updatePkg spread_def
      initial_state_def)

lemma initial_distinct: "distinct_ids (initial_state t0)"
  by (simp add: distinct_ids_def initial_state_def initialPackages_def)

lemma click_dispatch_initial:
  "ui_step 1 (initial_state 0) (Click_Dispatch (initialPackages 0 ! 1) ''rider-04'') = Done dispatched"
  by (simp add: dispatched_def initial_state_def initialPackages_def)

lemma click_delivered_003:
  "ui_step 2 dispatched (Click_MarkDelivered rider03 (packages dispatched ! 2)) =
     Done (onMarkDelivered 2 dispatched ''pkg-003'' ''rider-03'')"
proof -
  have m: "packages dispatched ! 2 \<in> set (packages dispatched)"
    by (rule nth_mem) (simp add: packages_dispatched initialPackages_def)
  have f: "status (packages dispatched ! 2) = out_for_delivery"
    "riderDeliveryId (packages dispatched ! 2) = Some ''rider-03''"
    "\<not> isHighValue (packages dispatched ! 2)"
    "pkg_id (packages dispatched ! 2) = ''pkg-003''"
    by (simp_all add: packages_dispatched initialPackages_def)
  have "card_shown rider03 dispatched (packages dispatched ! 2)"
    using m f by (simp add: card_shown_def myActive_def isMyDelivery_def rider03_def)
  then show ?thesis
    using f by (simp add: isMyDelivery_def rider03_def)
qed

text \<open>
  Claim C3, as amended. In the in-memory App with distinct package ids, no sequence of
  clicks on controls that the rider and admin screens offer (Accept Collection, Arrived
  at Warehouse, Verify, Accept Delivery, Dispatch, Mark as Delivered) moves the status of
  a package backward in the order \<open>searching_rider\<close>, \<open>picked_up\<close>, \<open>at_warehouse\<close>,
  \<open>out_for_delivery\<close>, \<open>delivered\<close>.
\<close>

theorem ui_status_never_backward:
  assumes "distinct_ids s" and "ui_run s cs = Some s'"
  shows "list_all2 (\<lambda>p p'. pkg_id p' = pkg_id p \<and> \<not> moves_backward (status p) (status p'))
           (packages s) (packages s')"
  by (rule list_all2_mono [OF ui_run_kept [OF assms]])
     (simp add: ui_kept_def stays_not_backward)

theorem ui_status_never_backward_witness:
  "distinct_ids (initial_state 0)
   \<and> ui_run (initial_state 0)
        [(1, Click_Dispatch (initialPackages 0 ! 1) ''rider-04''),
         (2, Click_MarkDelivered rider03 (packages dispatched ! 2))]
       = Some (onMarkDelivered 2 dispatched ''pkg-003'' ''rider-03'')
   \<and> list_all2 (\<lambda>p p'. pkg_id p' = pkg_id p \<and> \<not> moves_backward (status p) (status p'))
        (packages (initial_state 0))
        (packages (onMarkDelivered 2 dispatched ''pkg-003'' ''rider-03''))"
proof -
  have d: "distinct_ids (initial_state 0)" by (rule initial_distinct)
  have r: "ui_run (initial_state 0)
        [(1, Click_Dispatch (initialPackages 0 ! 1) ''rider-04''),
         (2, Click_MarkDelivered rider03 (packages dispatched ! 2))]
       = Some (onMarkDelivered 2 dispatched ''pkg-003'' ''rider-03'')"
    by (simp only: ui_run.simps click_dispatch_initial click_delivered_003 outcome.case)
  from d r ui_status_never_backward [OF d r] show ?thesis by (intro conjI)
qed


text \<open>
  Claim C3 as stated, for every sequence of calls of the handlers, fails: the handlers
  check no status, and \<open>onMarkAtWarehouse\<close> called on \<^verbatim>\<open>pkg-003\<close> of the initial
  packages moves it from \<open>out_for_delivery\<close> back to \<open>at_warehouse\<close>.
\<close>

theorem markAtWarehouse_backward_counterexample:
  "status (packages (initial_state 0) ! 2) = out_for_delivery
   \<and> status (packages (run (initial_state 0) [(1, MarkAtWarehouse ''pkg-003'' ''rider-01'')]) ! 2)
       = at_warehouse
   \<and> moves_backward out_for_delivery at_warehouse"
  by (simp add: exec_def onMarkAtWarehouse_def packages_updatePkg spread_def initial_state_def
      initialPackages_def moves_backward_def)

section \<open>Delivery of a high-value package\<close>

lemma find_pkg_mem:
  assumes "pkg \<in> set (packages s)"
  shows "\<exists>q. find_pkg s (pkg_id pkg) = Some q"
proof (cases "find_pkg s (pkg_id pkg)")
  case None
  with assms show ?thesis by (auto simp: find_pkg_def find_None_iff)
next
  case (Some q)
  then show ?thesis by blast
qed

text \<open>
  Claim C1, as amended. The rider screen of the in-memory App does not offer Mark as
  Delivered on a high-value package whose \<open>otpDeliveryVerified\<close> is false. When the
  delivery rider of such a package, out for delivery, enters its delivery code, the
  package is verified, and Mark as Delivered is then offered to that rider and sets the
  status of the package to \<open>delivered\<close>.
\<close>

theorem markDelivered_gate:
  "(isHighValue pkg \<and> \<not> otpDeliveryVerified pkg \<longrightarrow>
      ui_step now s (Click_MarkDelivered rider pkg) = NotOffered)
   \<and> (pkg \<in> set (packages s) \<and> isHighValue pkg \<and> status pkg = out_for_delivery
       \<and> riderDeliveryId pkg = Some (user_id rider) \<and> \<not> otpDeliveryVerified pkg
       \<and> otpDelivery pkg = Some code \<longrightarrow>
       (\<exists>s1 s2. ui_step now s (Click_VerifyDelivery rider pkg (Some code)) = Done s1
          \<and> pkg\<lparr>otpDeliveryVerified := True, updatedAt := Some now\<rparr> \<in> set (packages s1)
          \<and> ui_step now' s1
               (Click_MarkDelivered rider (pkg\<lparr>otpDeliveryVerified := True, updatedAt := Some now\<rparr>))
              = Done s2
          \<and> list_all (\<lambda>p. pkg_id p = pkg_id pkg \<longrightarrow> status p = delivered) (packages s2)))"
proof (intro conjI impI)
  assume "isHighValue pkg \<and> \<not> otpDeliveryVerified pkg"
  then show "ui_step now s (Click_MarkDelivered rider pkg) = NotOffered" by simp
next
  let ?pkg1 = "pkg\<lparr>otpDeliveryVerified := True, updatedAt := Some now\<rparr>"
  assume a: "pkg \<in> set (packages s) \<and> isHighValue pkg \<and> status pkg = out_for_delivery
       \<and> riderDeliveryId pkg = Some (user_id rider) \<and> \<not> otpDeliveryVerified pkg
       \<and> otpDelivery pkg = Some code"
  then have mine: "isMyDelivery rider pkg" by (simp add: isMyDelivery_def)
  with a have shown: "card_shown rider s pkg" by (simp add: card_shown_def myActive_def)
  from a mine have needs: "needsDeliveryOTP rider pkg" by (simp add: needsDeliveryOTP_def)
  from a obtain q where q: "find_pkg s (pkg_id pkg) = Some q" using find_pkg_mem by blast
  define s1 where "s1 = addLog now (updatePkg now s (pkg_id pkg) [Set_otpDeliveryVerified True])
      (pkg_id pkg) (riderDeliveryId q) ''rider'' (Option.bind (riderDeliveryId q) rider_name)
      ''OTP_DELIVERY_VERIFIED'' (Some (deliveryAddress q)) (Some ''High-value delivery OTP confirmed'')"
  have v: "onVerifyOTP now s (pkg_id pkg) ''delivery'' = Inr s1"
    using q by (simp add: onVerifyOTP_def s1_def)
  have h: "handleOTPVerify now s pkg ''delivery'' (Some code) = Inr (s1, False)"
    using a v by (simp add: handleOTPVerify_def Let_def orEmpty_def)
  have step1: "ui_step now s (Click_VerifyDelivery rider pkg (Some code)) = Done s1"
    using shown needs h by (simp add: of_result_def)
  have ps1: "packages s1 =
      map (\<lambda>p. if pkg_id p = pkg_id pkg
                then p\<lparr>otpDeliveryVerified := True, updatedAt := Some now\<rparr> else p) (packages s)"
    by (simp add: s1_def packages_updatePkg spread_def)
  have mem1: "?pkg1 \<in> set (packages s1)"
    unfolding ps1 set_map using a by (intro image_eqI [where x = pkg]) simp_all
  have shown1: "card_shown rider s1 ?pkg1"
    using mem1 mine by (simp add: card_shown_def myActive_def isMyDelivery_def)
  have step2: "ui_step now' s1 (Click_MarkDelivered rider ?pkg1) =
      Done (onMarkDelivered now' s1 (pkg_id pkg) (user_id rider))"
    using shown1 a mine by (simp add: isMyDelivery_def)
  have all: "list_all (\<lambda>p. pkg_id p = pkg_id pkg \<longrightarrow> status p = delivered)
      (packages (onMarkDelivered now' s1 (pkg_id pkg) (user_id rider)))"
    by (auto simp: onMarkDelivered_def packages_updatePkg spread_def list_all_iff)
  from step1 mem1 step2 all
  show "\<exists>s1 s2. ui_step now s (Click_VerifyDelivery rider pkg (Some code)) = Done s1
          \<and> ?pkg1 \<in> set (packages s1)
          \<and> ui_step now' s1 (Click_MarkDelivered rider ?pkg1) = Done s2
          \<and> list_all (\<lambda>p. pkg_id p = pkg_id pkg \<longrightarrow> status p = delivered) (packages s2)"
    by blast
qed

theorem markDelivered_gate_witness:
  "isHighValue (packages dispatched ! 1) \<and> \<not> otpDeliveryVerified (packages dispatched ! 1)
   \<and> ui_step 2 dispatched (Click_MarkDelivered rider04 (packages dispatched ! 1)) = NotOffered
   \<and> packages dispatched ! 1 \<in> set (packages dispatched)
   \<and> status (packages dispatched ! 1) = out_for_delivery
   \<and> riderDeliveryId (packages dispatched ! 1) = Some (user_id rider04)
   \<and> otpDelivery (packages dispatched ! 1) = Some ''2267''
   \<and> (\<exists>s1 s2. ui_step 2 dispatched
                  (Click_VerifyDelivery rider04 (packages dispatched ! 1) (Some ''2267'')) = Done s1
          \<and> ui_step 3 s1
               (Click_MarkDelivered rider04
                  ((packages dispatched ! 1)\<lparr>otpDeliveryVerified := True, updatedAt := Some 2\<rparr>))
              = Done s2
          \<and> list_all (\<lambda>p. pkg_id p = pkg_id (packages dispatched ! 1) \<longrightarrow> status p = delivered)
               (packages s2))"
proof -
  let ?p = "packages dispatched ! 1"
  have m: "?p \<in> set (packages dispatched)"
    by (rule nth_mem) (simp add: packages_dispatched initialPackages_def)
  have f: "isHighValue ?p" "\<not> otpDeliveryVerified ?p" "status ?p = out_for_delivery"
    "riderDeliveryId ?p = Some (user_id rider04)" "otpDelivery ?p = Some ''2267''"
    by (simp_all add: packages_dispatched initialPackages_def rider04_def)
  note t = markDelivered_gate [of ?p 2 dispatched rider04 "''2267''" 3]
  from f have h1: "isHighValue ?p \<and> \<not> otpDeliveryVerified ?p" by (intro conjI)
  from m f have h2: "?p \<in> set (packages dispatched) \<and> isHighValue ?p
      \<and> status ?p = out_for_delivery \<and> riderDeliveryId ?p = Some (user_id rider04)
      \<and> \<not> otpDeliveryVerified ?p \<and> otpDelivery ?p = Some ''2267''"
    by (intro conjI)
  note a = t [THEN conjunct1, THEN mp, OF h1]
  from t [THEN conjunct2, THEN mp, OF h2]
  have b: "\<exists>s1 s2. ui_step 2 dispatched (Click_VerifyDelivery rider04 ?p (Some ''2267'')) = Done s1
          \<and> ui_step 3 s1
               (Click_MarkDelivered rider04 (?p\<lparr>otpDeliveryVerified := True, updatedAt := Some 2\<rparr>))
              = Done s2
          \<and> list_all (\<lambda>p. pkg_id p = pkg_id ?p \<longrightarrow> status p = delivered) (packages s2)"
    by blast
  from f(1,2) a m f(3,4,5) b show ?thesis by (intro conjI)
qed


text \<open>
  Claim C1 as stated, that the call of MarkDelivered fails and leaves the status, fails:
  \<open>onMarkDelivered\<close> checks nothing and has no failing outcome. Called on the high-value
  \<^verbatim>\<open>pkg-002\<close> of the initial packages, whose delivery code is not verified, it sets the
  status to \<open>delivered\<close>.
\<close>

theorem markDelivered_unguarded_counterexample:
  "isHighValue (packages (initial_state 0) ! 1)
   \<and> \<not> otpDeliveryVerified (packages (initial_state 0) ! 1)
   \<and> status (packages (initial_state 0) ! 1) = at_warehouse
   \<and> status (packages (onMarkDelivered 5 (initial_state 0) ''pkg-002'' ''rider-04'') ! 1) = delivered
   \<and> \<not> otpDeliveryVerified
        (packages (onMarkDelivered 5 (initial_state 0) ''pkg-002'' ''rider-04'') ! 1)"
  by (simp add: onMarkDelivered_def packages_updatePkg spread_def initial_state_def
      initialPackages_def)


section \<open>The binding of the collection rider\<close>

lemma view_up_to_date:
  "onAcceptCollection_view usr uuid now s s pkgId riderId =
     onAcceptCollection_db usr uuid now s pkgId riderId"
  by (simp add: onAcceptCollection_view_def onAcceptCollection_db_def)

lemma list_all_transfer:
  "list_all2 (\<lambda>x y. P x \<longrightarrow> P y) xs ys \<Longrightarrow> list_all P xs \<Longrightarrow> list_all P ys"
  by (induction rule: list_all2_induct) simp_all

lemma bound_past_step2:
  "step now s x = Inr s' \<Longrightarrow>
     list_all2 (\<lambda>p p'. bound_past p \<longrightarrow> bound_past p') (packages s) (packages s')"
  by (cases x)
     (auto simp: onAcceptCollection_def onMarkAtWarehouse_def onAcceptDelivery_def onDispatch_def
        onVerifyOTP_def onMarkDelivered_def packages_updatePkg spread_def bound_past_def
        Let_def
        intro!: list_all2_map_self split: option.splits if_splits)

lemma bound_past_step:
  assumes "step now s x = Inr s'" and "list_all bound_past (packages s)"
  shows "list_all bound_past (packages s')"
  using bound_past_step2 [OF assms(1)] assms(2) by (rule list_all_transfer)

lemma bound_past_exec:
  "list_all bound_past (packages s) \<Longrightarrow> list_all bound_past (packages (exec now s x))"
  by (cases "step now s x") (simp_all add: exec_def bound_past_step)

lemma bound_past_step_db2:
  "list_all2 (\<lambda>p p'. bound_past p \<longrightarrow> bound_past p') (packages s) (packages (step_db e s x))"
  by (cases x)
     (auto simp: onAcceptCollection_db_def onMarkAtWarehouse_db_def onAcceptDelivery_db_def
        onDispatch_db_def onVerifyOTP_db_def onMarkDelivered_db_def packages_updatePkg_db
        spread_def bound_past_def Let_def
        intro!: list_all2_map_self split: if_splits)

lemma bound_past_step_db:
  "list_all bound_past (packages s) \<Longrightarrow> list_all bound_past (packages (step_db e s x))"
  using bound_past_step_db2 by (rule list_all_transfer)

lemma bound_past_run:
  "list_all bound_past (packages s) \<Longrightarrow> list_all bound_past (packages (run s xs))"
  by (induction xs arbitrary: s) (auto simp: bound_past_exec)

lemma bound_past_run_db:
  "list_all bound_past (packages s) \<Longrightarrow> list_all bound_past (packages (run_db s xs))"
  by (induction xs arbitrary: s) (auto simp: bound_past_step_db)

lemma bound_past_created:
  "list_all bound_past (packages s) \<Longrightarrow>
     list_all bound_past (packages (fst (onCreatePackage usr now suffix u1 u2 s f)))"
  by (simp add: onCreatePackage_def Let_def bound_past_def)

lemma bound_past_ui_step:
  assumes "ui_step now s c = Done s'" and "list_all bound_past (packages s)"
  shows "list_all bound_past (packages s')"
proof (cases c)
  case (Click_AcceptCollection rider pkg)
  with assms(1) have "step now s (AcceptCollection (pkg_id pkg) (user_id rider)) = Inr s'"
    by (auto split: if_splits)
  then show ?thesis using assms(2) by (rule bound_past_step)
next
  case (Click_MarkAtWarehouse rider pkg)
  with assms(1) have "step now s (MarkAtWarehouse (pkg_id pkg) (user_id rider)) = Inr s'"
    by (auto split: if_splits)
  then show ?thesis using assms(2) by (rule bound_past_step)
next
  case (Click_VerifyWarehouse rider pkg typed)
  with assms(1) have "of_result (map_sum id fst (handleOTPVerify now s pkg ''warehouse'' typed)) = Done s'"
    by (auto split: if_splits)
  then have "s' = s \<or> step now s (VerifyCode (pkg_id pkg) ''warehouse'') = Inr s'"
    by (auto simp: handleOTPVerify_def Let_def of_result_def split: if_splits sum.splits)
  then show ?thesis using assms(2) bound_past_step by blast
next
  case (Click_AcceptDelivery rider pkg)
  with assms(1) have "step now s (AcceptDelivery (pkg_id pkg) (user_id rider)) = Inr s'"
    by (auto split: if_splits)
  then show ?thesis using assms(2) by (rule bound_past_step)
next
  case (Click_VerifyDelivery rider pkg typed)
  with assms(1) have "of_result (map_sum id fst (handleOTPVerify now s pkg ''delivery'' typed)) = Done s'"
    by (auto split: if_splits)
  then have "s' = s \<or> step now s (VerifyCode (pkg_id pkg) ''delivery'') = Inr s'"
    by (auto simp: handleOTPVerify_def Let_def of_result_def split: if_splits sum.splits)
  then show ?thesis using assms(2) bound_past_step by blast
next
  case (Click_MarkDelivered rider pkg)
  with assms(1) have "step now s (MarkDelivered (pkg_id pkg) (user_id rider)) = Inr s'"
    by (auto split: if_splits)
  then show ?thesis using assms(2) by (rule bound_past_step)
next
  case (Click_Dispatch pkg selectedRider)
  with assms(1) have "step now s (Dispatch (pkg_id pkg) selectedRider) = Inr s'"
    by (auto split: if_splits)
  then show ?thesis using assms(2) by (rule bound_past_step)
qed

lemma bound_past_ui_run:
  "ui_run s cs = Some s' \<Longrightarrow> list_all bound_past (packages s) \<Longrightarrow>
     list_all bound_past (packages s')"
proof (induction cs arbitrary: s)
  case Nil
  then show ?case by simp
next
  case (Cons a cs)
  obtain now c where a: "a = (now, c)" by (cases a)
  from Cons.prems(1) obtain s1 where s1: "ui_step now s c = Done s1"
    and rest: "ui_run s1 cs = Some s'"
    unfolding a by (auto split: outcome.splits)
  from bound_past_ui_step [OF s1 Cons.prems(2)] rest show ?case by (rule Cons.IH [rotated])
qed

lemma binding_untouched:
  assumes "\<not> is_accept x"
  shows "map riderCollectionId (packages (exec now s x)) = map riderCollectionId (packages s)"
    and "map riderCollectionId (packages (step_db e s x)) = map riderCollectionId (packages s)"
  using assms
  by (cases x;
      auto simp: exec_def onMarkAtWarehouse_def onAcceptDelivery_def onDispatch_def
        onVerifyOTP_def onMarkDelivered_def packages_updatePkg spread_def
        onMarkAtWarehouse_db_def onAcceptDelivery_db_def onDispatch_db_def onVerifyOTP_db_def
        onMarkDelivered_db_def packages_updatePkg_db Let_def split: option.splits)+

lemma list_all2_with_left:
  "list_all2 P xs ys \<Longrightarrow> list_all Q xs \<Longrightarrow> list_all2 (\<lambda>x y. P x y \<and> Q x) xs ys"
  by (induction rule: list_all2_induct) simp_all

lemma toString_7: "toString 7 = ''7''"
  by (simp add: toString_def digits.simps digit_def)

lemma packages_booked: "packages (fst booked) = snd booked # initialPackages 0"
  by (simp add: booked_def onCreatePackage_def Let_def initial_state_def)

lemma fields_booked:
  "pkg_id (snd booked) = ''pkg-7''" "status (snd booked) = searching_rider"
  "riderCollectionId (snd booked) = None" "deliveryZone (snd booked) = ''Kasarani''"
  by (simp_all add: booked_def onCreatePackage_def Let_def toString_7 booking_def)

lemma distinct_booked: "distinct_ids (fst booked)"
  by (simp add: distinct_ids_def packages_booked fields_booked initialPackages_def)

lemma shown_booked:
  "card_shown rider02 (fst booked) (snd booked)" "card_shown rider03 (fst booked) (snd booked)"
  by (simp_all add: card_shown_def collectionFeed_def packages_booked fields_booked
      rider02_def rider03_def)

lemma rider_ids: "user_id rider02 = ''rider-02''" "user_id rider03 = ''rider-03''"
  by (simp_all add: rider02_def rider03_def)

lemma click_accept_booked:
  "ui_step 8 (fst booked) (Click_AcceptCollection rider02 (snd booked)) = Done accepted"
  by (simp add: accepted_def shown_booked fields_booked isMyCollection_def rider_ids)

lemma click_accept_booked_03:
  "ui_step 8 (fst booked) (Click_AcceptCollection rider03 (snd booked)) =
     Done (onAcceptCollection 8 (fst booked) ''pkg-7'' ''rider-03'')"
  by (simp add: shown_booked fields_booked isMyCollection_def rider_ids)

lemma packages_accepted:
  "packages accepted =
     (snd booked)\<lparr>riderCollectionId := Some ''rider-02'', status := picked_up,
        updatedAt := Some 8\<rparr> # initialPackages 0"
  by (simp add: accepted_def onAcceptCollection_def packages_updatePkg spread_def
      packages_booked fields_booked initialPackages_def)

lemma facts_accepted:
  "distinct_ids accepted" "list_all bound_past (packages accepted)"
  "riderCollectionId (packages accepted ! 0) = Some ''rider-02''"
  "status (packages accepted ! 0) = picked_up"
  "length (packages accepted) = 4"
  "packages accepted ! 2 \<in> set (packages accepted)"
  "status (packages accepted ! 2) = at_warehouse"
  "pkg_id (packages accepted ! 2) = ''pkg-002''"
  by (simp_all add: distinct_ids_def packages_accepted fields_booked initialPackages_def
      bound_past_def)

lemma run_after_dispatch:
  "ui_run accepted [(9, Click_Dispatch (packages accepted ! 2) ''rider-04'')] = Some after_dispatch"
  using facts_accepted(6,7,8) by (simp add: after_dispatch_def)

text \<open>
  Claim C2, as amended. A rider screen of either App that shows a package past
  \<open>searching_rider\<close> offers Accept Collection on it to no rider. Every package that has a
  collection rider is past \<open>searching_rider\<close> in every state that bookings and calls of
  the handlers of either App reach from a state where this holds, as it does of the
  initial packages. No handler but \<open>onAcceptCollection\<close> writes \<open>riderCollectionId\<close>. And
  in the in-memory App with distinct package ids, from such a state, every sequence of
  clicks leaves the collection rider of every package that has one, and at its end
  Accept Collection is offered to no rider on a package that has one.
\<close>

theorem bound_package_kept:
  "(status pkg \<noteq> searching_rider \<longrightarrow>
      ui_step now s (Click_AcceptCollection rider pkg) = NotOffered
      \<and> click_accept_db e view st pkg = NotOffered)
   \<and> (list_all bound_past (packages s) \<longrightarrow>
        list_all bound_past (packages (run s xs))
        \<and> list_all bound_past (packages (run_db s ys))
        \<and> list_all bound_past (packages (fst (onCreatePackage usr t suffix u1 u2 s f))))
   \<and> (\<not> is_accept x \<longrightarrow>
        map riderCollectionId (packages (exec now s x)) = map riderCollectionId (packages s)
        \<and> map riderCollectionId (packages (step_db e s x)) = map riderCollectionId (packages s))
   \<and> (distinct_ids s \<and> list_all bound_past (packages s) \<and> ui_run s cs = Some s' \<longrightarrow>
        list_all2 (\<lambda>p p'. pkg_id p' = pkg_id p
                     \<and> (riderCollectionId p \<noteq> None \<longrightarrow>
                          riderCollectionId p' = riderCollectionId p
                          \<and> status p' \<noteq> searching_rider))
          (packages s) (packages s')
        \<and> (\<forall>p'\<in>set (packages s'). \<forall>r t'. riderCollectionId p' \<noteq> None \<longrightarrow>
              ui_step t' s' (Click_AcceptCollection r p') = NotOffered))"
proof (intro conjI impI ballI)
  assume "status pkg \<noteq> searching_rider"
  then show "ui_step now s (Click_AcceptCollection rider pkg) = NotOffered"
    and "click_accept_db e view st pkg = NotOffered"
    by (simp_all add: click_accept_db_def)
next
  assume "list_all bound_past (packages s)"
  then show "list_all bound_past (packages (run s xs))"
    and "list_all bound_past (packages (run_db s ys))"
    and "list_all bound_past (packages (fst (onCreatePackage usr t suffix u1 u2 s f)))"
    by (rule bound_past_run bound_past_run_db bound_past_created)+
next
  assume "\<not> is_accept x"
  then show "map riderCollectionId (packages (exec now s x)) = map riderCollectionId (packages s)"
    and "map riderCollectionId (packages (step_db e s x)) = map riderCollectionId (packages s)"
    by (rule binding_untouched)+
next
  assume a: "distinct_ids s \<and> list_all bound_past (packages s) \<and> ui_run s cs = Some s'"
  then have k: "list_all2 ui_kept (packages s) (packages s')" using ui_run_kept by blast
  from a have b: "list_all bound_past (packages s)" by simp
  show "list_all2 (\<lambda>p p'. pkg_id p' = pkg_id p
                     \<and> (riderCollectionId p \<noteq> None \<longrightarrow>
                          riderCollectionId p' = riderCollectionId p
                          \<and> status p' \<noteq> searching_rider))
          (packages s) (packages s')"
    by (rule list_all2_mono [OF list_all2_with_left [OF k b]])
       (auto simp: ui_kept_def bound_past_def dest: stays_or_advances_searching)
next
  fix p' assume a: "distinct_ids s \<and> list_all bound_past (packages s) \<and> ui_run s cs = Some s'"
    and p': "p' \<in> set (packages s')"
  from a have "list_all bound_past (packages s')" using bound_past_ui_run by blast
  with p' have "bound_past p'" by (simp add: list_all_iff)
  then show "\<forall>r t'. riderCollectionId p' \<noteq> None \<longrightarrow>
      ui_step t' s' (Click_AcceptCollection r p') = NotOffered"
    by (auto simp: bound_past_def)
qed

theorem bound_package_kept_witness:
  "distinct_ids accepted \<and> list_all bound_past (packages accepted)
   \<and> ui_step 8 (fst booked) (Click_AcceptCollection rider03 (snd booked)) =
       Done (onAcceptCollection 8 (fst booked) ''pkg-7'' ''rider-03'')
   \<and> riderCollectionId (packages accepted ! 0) = Some ''rider-02''
   \<and> status (packages accepted ! 0) \<noteq> searching_rider
   \<and> ui_step 9 accepted (Click_AcceptCollection rider03 (packages accepted ! 0)) = NotOffered
   \<and> click_accept_db env_r3 accepted accepted (packages accepted ! 0) = NotOffered
   \<and> ui_run accepted [(9, Click_Dispatch (packages accepted ! 2) ''rider-04'')] = Some after_dispatch
   \<and> riderCollectionId (packages after_dispatch ! 0) = Some ''rider-02''
   \<and> packages after_dispatch ! 0 \<in> set (packages after_dispatch)
   \<and> ui_step 10 after_dispatch (Click_AcceptCollection rider03 (packages after_dispatch ! 0))
       = NotOffered
   \<and> list_all bound_past (packages (run accepted example_ops))"
proof -
  note f = facts_accepted
  have st: "status (packages accepted ! 0) \<noteq> searching_rider" using f(4) by simp
  note t = bound_package_kept [of "packages accepted ! 0" 9 accepted rider03 env_r3 accepted
      accepted example_ops "[]" customer 0 "[]" 0 0 "booking 0" "MarkAtWarehouse [] []"
      "[(9, Click_Dispatch (packages accepted ! 2) ''rider-04'')]" after_dispatch]
  note g = t [THEN conjunct1, THEN mp, OF st]
  note inv = t [THEN conjunct2, THEN conjunct1, THEN mp, OF f(2), THEN conjunct1]
  have h: "distinct_ids accepted \<and> list_all bound_past (packages accepted)
      \<and> ui_run accepted [(9, Click_Dispatch (packages accepted ! 2) ''rider-04'')] = Some after_dispatch"
    using f(1,2) run_after_dispatch by (intro conjI)
  note k = t [THEN conjunct2, THEN conjunct2, THEN conjunct2, THEN mp, OF h]
  have n: "0 < length (packages accepted)" using f(5) by simp
  from list_all2_nthD [OF k [THEN conjunct1] n] f(3)
  have b: "riderCollectionId (packages after_dispatch ! 0) = Some ''rider-02''" by simp
  have "length (packages after_dispatch) = length (packages accepted)"
    using list_all2_lengthD [OF k [THEN conjunct1]] by simp
  with n have m: "packages after_dispatch ! 0 \<in> set (packages after_dispatch)" by simp
  from k [THEN conjunct2] m b
  have no: "ui_step 10 after_dispatch (Click_AcceptCollection rider03 (packages after_dispatch ! 0))
      = NotOffered"
    by auto
  from f(1,2) click_accept_booked_03 f(3) st g [THEN conjunct1] g [THEN conjunct2]
    run_after_dispatch b m no inv
  show ?thesis by (intro conjI)
qed

text \<open>
  Claim C2 as stated, that a further call fails and leaves the binding, fails for the
  handlers of both Apps and for two concurrent accepts: \<open>onAcceptCollection\<close> checks
  nothing and has no failing outcome. Called for \<^verbatim>\<open>rider-02\<close> on \<^verbatim>\<open>pkg-001\<close> of the
  initial packages, which \<^verbatim>\<open>rider-01\<close> has collected, it overwrites the collection
  rider, in the in-memory App and in the Supabase App. And when \<^verbatim>\<open>rider-02\<close> and
  \<^verbatim>\<open>rider-03\<close> of the Supabase App have both loaded the booked package as
  \<open>searching_rider\<close>, the button is offered to both, both calls run, and the second
  overwrites the binding of the first.
\<close>

theorem acceptCollection_overwrites_counterexample:
  "riderCollectionId (packages (initial_state 0) ! 0) = Some ''rider-01''
   \<and> riderCollectionId
        (packages (onAcceptCollection 5 (initial_state 0) ''pkg-001'' ''rider-02'') ! 0)
       = Some ''rider-02''
   \<and> riderCollectionId
        (packages (onAcceptCollection_db rider02 ''row-a'' 5 (initial_state 0) ''pkg-001''
           ''rider-02'') ! 0)
       = Some ''rider-02''
   \<and> click_accept_db env_r2 (fst booked) (fst booked) (snd booked) = Done race1
   \<and> riderCollectionId (packages race1 ! 0) = Some ''rider-02''
   \<and> click_accept_db env_r3 (fst booked) race1 (snd booked) = Done race2
   \<and> riderCollectionId (packages race2 ! 0) = Some ''rider-03''"
proof -
  have a: "riderCollectionId (packages (initial_state 0) ! 0) = Some ''rider-01''"
    "riderCollectionId
        (packages (onAcceptCollection 5 (initial_state 0) ''pkg-001'' ''rider-02'') ! 0)
       = Some ''rider-02''"
    "riderCollectionId
        (packages (onAcceptCollection_db rider02 ''row-a'' 5 (initial_state 0) ''pkg-001''
           ''rider-02'') ! 0)
       = Some ''rider-02''"
    by (simp_all add: onAcceptCollection_def onAcceptCollection_db_def packages_updatePkg
        packages_updatePkg_db spread_def initial_state_def initialPackages_def)
  have c1: "click_accept_db env_r2 (fst booked) (fst booked) (snd booked) = Done race1"
    by (simp add: click_accept_db_def env_r2_def race1_def shown_booked fields_booked
        isMyCollection_def rider_ids)
  have c2: "click_accept_db env_r3 (fst booked) race1 (snd booked) = Done race2"
    by (simp add: click_accept_db_def env_r3_def race2_def shown_booked fields_booked
        isMyCollection_def rider_ids)
  have p1: "riderCollectionId (packages race1 ! 0) = Some ''rider-02''"
    by (simp add: race1_def onAcceptCollection_view_def packages_updatePkg_db spread_def
        packages_booked fields_booked)
  have p2: "riderCollectionId (packages race2 ! 0) = Some ''rider-03''"
    by (simp add: race2_def race1_def onAcceptCollection_view_def packages_updatePkg_db
        spread_def packages_booked fields_booked)
  from a c1 p1 c2 p2 show ?thesis by (intro conjI)
qed


end
